theory Spec2Isabelle
  imports Complex_Main "HOL-Library.AList" "HOL-Library.Word"
begin

section \<open>The KeyBridge batching client (dev/key-bridge/KeyBridgeClient.ts)\<close>

text \<open>
  The development is a shallow embedding of the class \<open>KeyBridgeClient\<close>. The object's
  mutable fields become one record that every method takes and returns. What a method
  does to the outside world (calling a stored \<open>resolve\<close>/\<open>reject\<close>, notifying the state
  listeners, posting to the server, arming a timer, calling the fallback) is appended,
  in program order, to the field \<open>effects\<close>. An \<open>async\<close> method is cut at its
  \<open>await\<close>: the part before it and the part after it are separate functions, and the
  environment chooses what the awaited call produced and what happens in between.

  The class embedded first is the one that \<open>dev/api.ts\<close> and the connection panel
  import. The repository holds a second, commented copy of it (\<open>unnamed/part_000\<close>),
  which differs in two places: its \<open>parseResult\<close> only JSON-decodes a string, and its
  \<open>processBatch\<close> re-arms the timer on \<open>pending\<close> and \<open>active\<close> alone. Those methods
  of the second copy, and the ones that call them, are embedded too, under the names of
  the first with the suffix \<open>_second\<close>.
\<close>

subsection \<open>Values\<close>

text \<open>
  Values that arrive in a response body or come out of \<open>JSON.parse\<close>. A JavaScript
  number is modelled by a real (JSON has no NaN); \<open>undefined\<close> is not a JSON value, so a
  field of type \<open>unknown\<close> that may be missing is a \<open>json option\<close>. An object is the list
  of its own properties, read with \<open>map_of\<close>.
\<close>

datatype json =
    JNull
  | JBool bool
  | JNum real
  | JStr string
  | JArr "json list"
  | JObj "(string \<times> json) list"

text \<open>\<open>v && typeof v === 'object'\<close>: arrays and objects, but not \<open>null\<close>.\<close>

fun truthy_object :: "json option \<Rightarrow> bool" where
  "truthy_object (Some (JArr _)) = True"
| "truthy_object (Some (JObj _)) = True"
| "truthy_object _ = False"

text \<open>\<open>v.name\<close> for a named property that is neither an index nor \<open>length\<close>.\<close>

fun get_prop :: "json \<Rightarrow> string \<Rightarrow> json option" where
  "get_prop (JObj kvs) name = map_of kvs name"
| "get_prop _ name = None"

text \<open>
  \<open>parseResult\<close>. \<open>JSON.parse\<close> belongs to the JavaScript runtime, not to the
  repository; it is the parameter \<open>decode\<close>, with \<open>None\<close> for a thrown SyntaxError.
\<close>

definition parseResult :: "(string \<Rightarrow> json option) \<Rightarrow> json option \<Rightarrow> json option" where
  "parseResult decode result =
     (case result of
        Some (JStr s) \<Rightarrow>
          (case decode s of
             Some parsed \<Rightarrow>
               if truthy_object (Some parsed) \<and> get_prop parsed ''result'' \<noteq> None
               then get_prop parsed ''result''
               else Some parsed
           | None \<Rightarrow> Some (JStr s))
      | Some obj \<Rightarrow>
          if truthy_object (Some obj)
          then (if get_prop obj ''method'' \<noteq> None \<and> get_prop obj ''result'' \<noteq> None
                then get_prop obj ''result''
                else Some obj)
          else Some obj
      | None \<Rightarrow> None)"

subsection \<open>Types of the client\<close>

text \<open>
  The connection key is the one string whose characters the client looks at (it is
  trimmed), so it is the list of its UTF-16 code units, as a JavaScript string is. The
  other strings are only compared and stored as wholes; they stay of type \<open>string\<close>.
  \<open>utf16\<close> gives the code units of a string of ASCII characters.
\<close>

type_synonym js_string = "16 word list"

definition utf16 :: "string \<Rightarrow> js_string" where
  "utf16 s = map (\<lambda>c. of_nat (of_char c)) s"

record api_call =
  call_method :: string
  params :: "json list option"

text \<open>
  A queued request. The pair of closures \<open>resolve\<close>/\<open>reject\<close> of one promise is
  identified by the number \<open>cont\<close>; calling one of them is an effect (below).
\<close>

record batch_request =
  requestKey :: string
  call :: api_call
  cont :: nat
  timestamp :: nat

datatype result_status = Done | Pending

record server_result =
  res_requestKey :: string
  res_status :: result_status
  res_result :: "json option"
  res_isError :: "bool option"

record created_item =
  item_requestKey :: string
  item_status :: string

text \<open>\<open>ServerBatchResponseType['data']\<close>; every field is optional.\<close>

record batch_data =
  intervalMs :: "real option"
  results :: "server_result list option"
  created :: "created_item list option"
  cleanupCount :: "real option"

text \<open>
  A response body as \<open>validateInitResponse\<close> tells bodies apart: not an object (or
  \<open>null\<close>); an object with both \<open>ok\<close> and \<open>data\<close> (the truthiness of \<open>ok\<close>, and \<open>data\<close>
  with \<open>None\<close> for \<open>null\<close>); an object without that pair but with one of \<open>intervalMs\<close>,
  \<open>results\<close>, \<open>created\<close>, \<open>cleanupCount\<close>; any other object.
\<close>

datatype response_body =
    NotAnObject
  | OkAndData bool "batch_data option"
  | DirectData batch_data
  | OtherObject

text \<open>\<open>AxiosErrorResponseType\<close>: what a \<open>catch\<close> receives.\<close>

record error_response =
  status :: int
  data_message :: "string option"

record thrown =
  instanceof_Error :: bool
  message :: string
  response :: "error_response option"

definition Error :: "string \<Rightarrow> thrown" where
  "Error msg = \<lparr>instanceof_Error = True, message = msg, response = None\<rparr>"

text \<open>\<open>KeyBridgeStateType\<close>, the snapshot handed to listeners.\<close>

record key_bridge_state =
  st_connected :: bool
  st_processing :: bool
  st_error :: "string option"
  st_pollRate :: real
  st_pending :: nat
  st_active :: nat
  st_completed :: nat

datatype payload =
    InitPayload js_string
  | BatchPayload js_string "string list" "string list" "(string \<times> string \<times> json list) list"

text \<open>
  The observable effects: \<open>request.resolve(value)\<close> and \<open>request.reject(new
  Error(msg))\<close> of the promise with the given number, a call of every listener with a
  state snapshot, \<open>axios.post\<close> of a payload with a timeout, \<open>setTimeout\<close> of
  \<open>processIfNeeded\<close> with a delay, and a call of the caller's fallback.
\<close>

datatype effect =
    Resolved nat "json option"
  | Rejected nat string
  | Notified key_bridge_state
  | Posted payload real
  | TimerSet real
  | FallbackCalled

text \<open>
  The private fields. \<open>connection.{key, pollRate, broken}\<close>, \<open>queues.{pending, active,
  completed}\<close> and \<open>state.{processing, error}\<close> are flattened into one record. A
  JavaScript \<open>Map\<close> iterates in insertion order and \<open>set\<close> on a present key keeps its
  place: an association list with \<open>AList.update\<close>. A \<open>Set\<close> is a list without
  repetitions, extended at the end.
\<close>

record client =
  key :: "js_string option"
  pollRate :: real
  broken :: bool
  pending :: "(string \<times> batch_request) list"
  active :: "(string \<times> batch_request) list"
  completed :: "string list"
  processing :: bool
  error :: "string option"
  effects :: "effect list"

definition new_client :: client where
  "new_client = \<lparr>key = None, pollRate = 500, broken = False, pending = [], active = [],
     completed = [], processing = False, error = None, effects = []\<rparr>"

definition set_add :: "'a \<Rightarrow> 'a list \<Rightarrow> 'a list" where
  "set_add x xs = (if x \<in> set xs then xs else xs @ [x])"

text \<open>Truthiness of a \<open>string | null\<close>: \<open>null\<close> and the empty string are falsy.\<close>

fun truthy :: "'a list option \<Rightarrow> bool" where
  "truthy None = False"
| "truthy (Some s) = (s \<noteq> [])"

text \<open>\<open>a || b\<close> on strings.\<close>

definition or_else :: "'a list option \<Rightarrow> 'a list \<Rightarrow> 'a list" where
  "or_else a b = (if truthy a then the a else b)"

definition emit :: "effect list \<Rightarrow> client \<Rightarrow> client" where
  "emit es s = s\<lparr>effects := effects s @ es\<rparr>"

definition resolve :: "batch_request \<Rightarrow> json option \<Rightarrow> client \<Rightarrow> client" where
  "resolve req v = emit [Resolved (cont req) v]"

definition reject :: "batch_request \<Rightarrow> string \<Rightarrow> client \<Rightarrow> client" where
  "reject req msg = emit [Rejected (cont req) msg]"

subsection \<open>Methods without an await\<close>

definition getState :: "client \<Rightarrow> key_bridge_state" where
  "getState s =
     \<lparr>st_connected = (\<not> broken s \<and> truthy (key s)),
      st_processing = processing s,
      st_error = error s,
      st_pollRate = pollRate s,
      st_pending = length (pending s),
      st_active = length (active s),
      st_completed = length (completed s)\<rparr>"

definition notifyStateChange :: "client \<Rightarrow> client" where
  "notifyStateChange s = emit [Notified (getState s)] s"

definition isConnected :: "client \<Rightarrow> bool" where
  "isConnected s = (\<not> broken s \<and> truthy (key s) \<and> \<not> truthy (error s))"

definition getLastError :: "client \<Rightarrow> string option" where
  "getLastError s = error s"

definition getErrorMessage :: "thrown \<Rightarrow> string" where
  "getErrorMessage e = (if instanceof_Error e then message e else ''Unknown error'')"

text \<open>\<open>Math.max(500, Math.min(10000, x))\<close>.\<close>

definition clamp_rate :: "real \<Rightarrow> real" where
  "clamp_rate x = max 500 (min 10000 x)"

definition resetState :: "client \<Rightarrow> client" where
  "resetState s =
     (let s1 = emit (map (\<lambda>req. Rejected (cont req) ''Connection reset'')
                       (map snd (pending s) @ map snd (active s))) s;
          s2 = s1\<lparr>pending := [], active := [], completed := [], processing := False\<rparr>
      in notifyStateChange s2)"

definition validateInitResponse :: "response_body \<Rightarrow> thrown + batch_data option" where
  "validateInitResponse body =
     (case body of
        NotAnObject \<Rightarrow> Inl (Error ''Invalid response structure'')
      | OkAndData ok d \<Rightarrow> if \<not> ok then Inl (Error ''Server returned error status'') else Inr d
      | DirectData d \<Rightarrow> Inr (Some d)
      | OtherObject \<Rightarrow> Inl (Error ''Unrecognized response format''))"

subsection \<open>setKey\<close>

text \<open>
  \<open>String.prototype.trim\<close> removes, at both ends, the code units that ECMAScript calls
  white space or line terminators: tab, line feed, vertical tab, form feed, carriage
  return, space, no-break space (U+00A0), the other characters of the Unicode class Zs
  (U+1680, U+2000 to U+200A, U+202F, U+205F, U+3000), the line and paragraph separators
  (U+2028, U+2029) and the byte order mark (U+FEFF). Each of them is one code unit.
\<close>

definition is_space :: "16 word \<Rightarrow> bool" where
  "is_space c = (c \<in> set [0x0009, 0x000A, 0x000B, 0x000C, 0x000D, 0x0020, 0x00A0, 0x1680,
     0x2000, 0x2001, 0x2002, 0x2003, 0x2004, 0x2005, 0x2006, 0x2007, 0x2008, 0x2009, 0x200A,
     0x2028, 0x2029, 0x202F, 0x205F, 0x3000, 0xFEFF])"

definition trim :: "js_string \<Rightarrow> js_string" where
  "trim s = rev (dropWhile is_space (rev (dropWhile is_space s)))"

text \<open>\<open>(key || '').trim() || null\<close>.\<close>

definition normalize_key :: "js_string option \<Rightarrow> js_string option" where
  "normalize_key k = (let t = trim (or_else k []) in if t = [] then None else Some t)"

text \<open>\<open>initializeConnection\<close> up to its \<open>await\<close>: the check of the key, then the post.\<close>

definition initializeConnection_request :: "client \<Rightarrow> thrown + client" where
  "initializeConnection_request s =
     (if \<not> truthy (key s) then Inl (Error ''No connection key'')
      else Inr (emit [Posted (InitPayload (the (key s))) 5000] s))"

text \<open>
  \<open>setKey\<close> up to the \<open>await\<close>. The second component tells whether an initialisation
  request is now in flight; when it is not, \<open>setKey\<close> has finished.
\<close>

definition setKey_call :: "js_string option \<Rightarrow> client \<Rightarrow> client \<times> bool" where
  "setKey_call k s =
     (let s1 = s\<lparr>broken := False\<rparr>;
          s2 = s1\<lparr>error := None\<rparr>;
          s3 = resetState s2;
          s4 = s3\<lparr>key := normalize_key k\<rparr>
      in if \<not> truthy (key s4) then (notifyStateChange s4, False)
         else (case initializeConnection_request s4 of
                 Inr s5 \<Rightarrow> (s5, True)
               | Inl e \<Rightarrow> (notifyStateChange (s4\<lparr>error := Some (getErrorMessage e)\<rparr>), False)))"

text \<open>The \<open>catch\<close> of \<open>initializeConnection\<close>: what it rethrows and the state it leaves.\<close>

definition initializeConnection_catch :: "thrown \<Rightarrow> client \<Rightarrow> thrown \<times> client" where
  "initializeConnection_catch e s =
     (if map_option status (response e) = Some 404
      then (Error ''KEY_NOT_FOUND'',
            s\<lparr>broken := True,
              error := Some (or_else (data_message (the (response e)))
                               ''Session not found. Create key again.''),
              key := None\<rparr>)
      else (e, s))"

text \<open>
  \<open>initializeConnection\<close> after the \<open>await\<close>; \<open>Inl e\<close> is a post that rejected with
  \<open>e\<close>, \<open>Inr body\<close> one that returned \<open>response.data = body\<close>. Reading \<open>intervalMs\<close> of a
  \<open>null\<close> data is a TypeError (its text depends on the engine).
\<close>

definition initializeConnection_response ::
    "thrown + response_body \<Rightarrow> client \<Rightarrow> thrown option \<times> client" where
  "initializeConnection_response outcome s =
     (case outcome of
        Inl e \<Rightarrow> (case initializeConnection_catch e s of (e', s') \<Rightarrow> (Some e', s'))
      | Inr body \<Rightarrow>
          (case validateInitResponse body of
             Inl e \<Rightarrow> (case initializeConnection_catch e s of (e', s') \<Rightarrow> (Some e', s'))
           | Inr None \<Rightarrow>
               (case initializeConnection_catch (Error ''Cannot read properties of null'') s of
                  (e', s') \<Rightarrow> (Some e', s'))
           | Inr (Some serverResponse) \<Rightarrow>
               (case intervalMs serverResponse of
                  Some x \<Rightarrow> (None, if x > 0 then s\<lparr>pollRate := clamp_rate x\<rparr> else s)
                | None \<Rightarrow> (None, s))))"

text \<open>\<open>setKey\<close> after the \<open>await\<close>; the first component is what \<open>setKey\<close> throws.\<close>

definition setKey_resume :: "thrown + response_body \<Rightarrow> client \<Rightarrow> thrown option \<times> client" where
  "setKey_resume outcome s =
     (case initializeConnection_response outcome s of
        (None, s1) \<Rightarrow> (None, notifyStateChange s1)
      | (Some e, s1) \<Rightarrow> (Some e, notifyStateChange (s1\<lparr>error := Some (getErrorMessage e)\<rparr>)))"

subsection \<open>A batch round\<close>

text \<open>What a suspended \<open>processBatch\<close> holds in its local variables.\<close>

record round =
  batchToSend :: "(string \<times> batch_request) list"
  completedSnapshot :: "string list"

text \<open>\<open>processBatch\<close> up to its \<open>await\<close>; \<open>None\<close> when it returned at its first line.\<close>

definition processBatch_request :: "client \<Rightarrow> client \<times> round option" where
  "processBatch_request s =
     (if broken s \<or> \<not> truthy (key s) then (s, None)
      else
        let payload = BatchPayload (the (key s)) (completed s) (map fst (active s))
                        (map (\<lambda>req. (requestKey req, call_method (call req),
                                      (case params (call req) of Some ps \<Rightarrow> ps | None \<Rightarrow> [])))
                             (map snd (pending s)));
            rnd = \<lparr>batchToSend = pending s, completedSnapshot = completed s\<rparr>;
            s1 = s\<lparr>pending := []\<rparr>;
            s2 = s1\<lparr>completed := []\<rparr>
        in (emit [Posted payload (pollRate s2 * 2)] s2, Some rnd))"

datatype started = NotStarted | ReturnedEarly | InFlight round

text \<open>
  \<open>processIfNeeded\<close> up to the \<open>await\<close>: \<open>NotStarted\<close> when a guard returned,
  \<open>InFlight\<close> when a round was sent, \<open>ReturnedEarly\<close> when \<open>processBatch\<close> returned
  at once (then only the \<open>finally\<close> is left to run).
\<close>

definition processIfNeeded_call :: "client \<Rightarrow> client \<times> started" where
  "processIfNeeded_call s =
     (if broken s \<or> processing s \<or> \<not> truthy (key s) then (s, NotStarted)
      else
        let hasWork = (length (pending s) > 0 \<or> length (active s) > 0
                         \<or> length (completed s) > 0)
        in if \<not> hasWork then (s, NotStarted)
           else
             let s1 = notifyStateChange (s\<lparr>processing := True\<rparr>)
             in (case processBatch_request s1 of
                   (s2, Some rnd) \<Rightarrow> (s2, InFlight rnd)
                 | (s2, None) \<Rightarrow> (s2, ReturnedEarly)))"

text \<open>The \<open>finally\<close> of \<open>processIfNeeded\<close>.\<close>

definition processIfNeeded_finally :: "client \<Rightarrow> client" where
  "processIfNeeded_finally s = notifyStateChange (s\<lparr>processing := False\<rparr>)"

text \<open>The body of \<open>data.results.forEach\<close>.\<close>

definition handle_result :: "(string \<Rightarrow> json option) \<Rightarrow> server_result \<Rightarrow> client \<Rightarrow> client" where
  "handle_result decode r s =
     (case map_of (active s) (res_requestKey r) of
        None \<Rightarrow> s
      | Some request \<Rightarrow>
          if res_status r = Done then
            let s1 = (if res_isError r = Some True
                      then reject request
                             (case res_result r of Some (JStr m) \<Rightarrow> m | _ \<Rightarrow> ''Execution failed'') s
                      else resolve request (parseResult decode (res_result r)) s);
                s2 = s1\<lparr>active := AList.delete (res_requestKey r) (active s1)\<rparr>
            in s2\<lparr>completed := set_add (res_requestKey r) (completed s2)\<rparr>
          else s)"

text \<open>The body of \<open>data.created.forEach\<close>.\<close>

definition handle_created ::
    "(string \<times> batch_request) list \<Rightarrow> created_item \<Rightarrow> client \<Rightarrow> client" where
  "handle_created batch item s =
     (case map_of batch (item_requestKey item) of
        None \<Rightarrow> s
      | Some request \<Rightarrow>
          if item_status item = ''pending''
          then s\<lparr>active := AList.update (item_requestKey item) request (active s)\<rparr>
          else reject request ''Failed to enqueue request'' s)"

definition handleBatchResponse ::
    "(string \<Rightarrow> json option) \<Rightarrow> batch_data \<Rightarrow> (string \<times> batch_request) list \<Rightarrow> client \<Rightarrow> client" where
  "handleBatchResponse decode d batch s =
     (let s1 = (case intervalMs d of Some x \<Rightarrow> s\<lparr>pollRate := clamp_rate x\<rparr> | None \<Rightarrow> s);
          s2 = (case results d of
                  Some rs \<Rightarrow> if length rs > 0 then fold (handle_result decode) rs s1 else s1
                | None \<Rightarrow> s1);
          s3 = (case created d of
                  Some cs \<Rightarrow> if length cs > 0 then fold (handle_created batch) cs s2 else s2
                | None \<Rightarrow> s2)
      in notifyStateChange s3)"

definition isCriticalError :: "thrown \<Rightarrow> bool" where
  "isCriticalError e =
     (map_option status (response e) = Some 404 \<or> map_option status (response e) = Some 500)"

definition handleBatchError ::
    "thrown \<Rightarrow> (string \<times> batch_request) list \<Rightarrow> string list \<Rightarrow> client \<Rightarrow> client" where
  "handleBatchError e batch snapshot s =
     (let errorMsg = getErrorMessage e;
          s1 = s\<lparr>pending := fold (\<lambda>(k, request). AList.update k request) batch (pending s)\<rparr>;
          s2 = s1\<lparr>completed := fold set_add snapshot (completed s1)\<rparr>;
          s3 = s2\<lparr>error := Some errorMsg\<rparr>
      in if isCriticalError e then
           let s4 = s3\<lparr>broken := True\<rparr>;
               s5 = (if map_option status (response e) = Some 404
                     then s4\<lparr>key := None,
                            error := Some (or_else (data_message (the (response e)))
                                             ''Session not found. Create key again.'')\<rparr>
                     else s4)
           in notifyStateChange (resetState s5)
         else notifyStateChange (emit [TimerSet (min 2000 (pollRate s3))] s3))"

text \<open>
  \<open>processBatch\<close> after the \<open>await\<close>, for the round that holds \<open>rnd\<close>: \<open>Inl e\<close> is a
  post that rejected, \<open>Inr body\<close> one that returned \<open>response.data = body\<close>.
\<close>

definition processBatch_response ::
    "(string \<Rightarrow> json option) \<Rightarrow> thrown + response_body \<Rightarrow> round \<Rightarrow> client \<Rightarrow> client" where
  "processBatch_response decode outcome rnd s =
     (case outcome of
        Inl e \<Rightarrow> handleBatchError e (batchToSend rnd) (completedSnapshot rnd) s
      | Inr body \<Rightarrow>
          (case validateInitResponse body of
             Inl e \<Rightarrow> handleBatchError e (batchToSend rnd) (completedSnapshot rnd) s
           | Inr None \<Rightarrow>
               handleBatchError (Error ''Invalid batch response'')
                 (batchToSend rnd) (completedSnapshot rnd) s
           | Inr (Some responseData) \<Rightarrow>
               let s1 = handleBatchResponse decode responseData (batchToSend rnd) s;
                   shouldScheduleNext = (length (pending s1) > 0 \<or> length (active s1) > 0
                                           \<or> length (completed s1) > 0)
               in if shouldScheduleNext then emit [TimerSet (pollRate s1)] s1 else s1))"

subsection \<open>The second copy of the class\<close>

text \<open>
  \<open>parseResult\<close> of the second copy: a string is JSON-decoded, and kept when decoding
  throws; nothing is unwrapped.
\<close>

definition parseResult_second :: "(string \<Rightarrow> json option) \<Rightarrow> json option \<Rightarrow> json option" where
  "parseResult_second decode result =
     (case result of
        Some (JStr s) \<Rightarrow> (case decode s of Some parsed \<Rightarrow> Some parsed | None \<Rightarrow> Some (JStr s))
      | _ \<Rightarrow> result)"

text \<open>The body of \<open>data.results?.forEach\<close>, which calls that \<open>parseResult\<close>.\<close>

definition handle_result_second ::
    "(string \<Rightarrow> json option) \<Rightarrow> server_result \<Rightarrow> client \<Rightarrow> client" where
  "handle_result_second decode r s =
     (case map_of (active s) (res_requestKey r) of
        None \<Rightarrow> s
      | Some request \<Rightarrow>
          if res_status r = Done then
            let s1 = (if res_isError r = Some True
                      then reject request
                             (case res_result r of Some (JStr m) \<Rightarrow> m | _ \<Rightarrow> ''Execution failed'') s
                      else resolve request (parseResult_second decode (res_result r)) s);
                s2 = s1\<lparr>active := AList.delete (res_requestKey r) (active s1)\<rparr>
            in s2\<lparr>completed := set_add (res_requestKey r) (completed s2)\<rparr>
          else s)"

definition handleBatchResponse_second ::
    "(string \<Rightarrow> json option) \<Rightarrow> batch_data \<Rightarrow> (string \<times> batch_request) list \<Rightarrow> client \<Rightarrow> client" where
  "handleBatchResponse_second decode d batch s =
     (let s1 = (case intervalMs d of Some x \<Rightarrow> s\<lparr>pollRate := clamp_rate x\<rparr> | None \<Rightarrow> s);
          s2 = (case results d of
                  Some rs \<Rightarrow> fold (handle_result_second decode) rs s1
                | None \<Rightarrow> s1);
          s3 = (case created d of
                  Some cs \<Rightarrow> fold (handle_created batch) cs s2
                | None \<Rightarrow> s2)
      in notifyStateChange s3)"

text \<open>
  \<open>processBatch\<close> of the second copy after the \<open>await\<close>: the timer is re-armed when
  \<open>pending\<close> or \<open>active\<close> is non-empty; \<open>completed\<close> is not looked at.
\<close>

definition processBatch_response_second ::
    "(string \<Rightarrow> json option) \<Rightarrow> thrown + response_body \<Rightarrow> round \<Rightarrow> client \<Rightarrow> client" where
  "processBatch_response_second decode outcome rnd s =
     (case outcome of
        Inl e \<Rightarrow> handleBatchError e (batchToSend rnd) (completedSnapshot rnd) s
      | Inr body \<Rightarrow>
          (case validateInitResponse body of
             Inl e \<Rightarrow> handleBatchError e (batchToSend rnd) (completedSnapshot rnd) s
           | Inr None \<Rightarrow>
               handleBatchError (Error ''Invalid batch response'')
                 (batchToSend rnd) (completedSnapshot rnd) s
           | Inr (Some responseData) \<Rightarrow>
               let s1 = handleBatchResponse_second decode responseData (batchToSend rnd) s
               in if length (pending s1) > 0 \<or> length (active s1) > 0
                  then emit [TimerSet (pollRate s1)] s1 else s1))"

subsection \<open>executeOrFallback\<close>

text \<open>
  \<open>generateRequestKey\<close>: the digits of \<open>Date.now()\<close> and the eight characters taken
  from \<open>Math.random()\<close> are chosen by the environment.
\<close>

definition generateRequestKey :: "string \<Rightarrow> string \<Rightarrow> string" where
  "generateRequestKey now rnd = ''req_'' @ now @ ''_'' @ rnd"

text \<open>
  \<open>executeOrFallback\<close>; \<open>c\<close> names the \<open>resolve\<close>/\<open>reject\<close> pair of the promise it
  creates, \<open>now\<close> is the second reading of \<open>Date.now()\<close>.
\<close>

definition executeOrFallback ::
    "api_call \<Rightarrow> string \<Rightarrow> nat \<Rightarrow> nat \<Rightarrow> client \<Rightarrow> client \<times> started" where
  "executeOrFallback apiCall rk c now s =
     (if broken s \<or> \<not> truthy (key s) then (emit [FallbackCalled] s, NotStarted)
      else
        let request = \<lparr>requestKey = rk, call = apiCall, cont = c, timestamp = now\<rparr>;
            s1 = s\<lparr>pending := AList.update rk request (pending s)\<rparr>;
            s2 = notifyStateChange s1
        in processIfNeeded_call s2)"

subsection \<open>The client in its environment\<close>

text \<open>
  Between two awaits the client runs alone; at an await the environment takes over. The
  system state adds to the client what is suspended: the rounds whose post has not
  settled, the number of \<open>processBatch\<close> calls that have returned while the \<open>finally\<close>
  of their \<open>processIfNeeded\<close> has not run yet, the number of \<open>setKey\<close> calls waiting for
  their initialisation post, the number of timers that have fired, and the number of
  promises created so far (the next \<open>cont\<close>).
\<close>

record system =
  the_client :: client
  rounds :: "round list"
  returned :: nat
  inits :: nat
  fired :: nat
  promises :: nat

definition new_system :: system where
  "new_system = \<lparr>the_client = new_client, rounds = [], returned = 0, inits = 0, fired = 0,
     promises = 0\<rparr>"

text \<open>
  What can happen next: a caller submits a call (with the two varying parts of the
  request key and the time stamp), a caller sets the key, the post of an initialisation
  or of the round at some index settles (\<open>Inl\<close> rejected, \<open>Inr\<close> the body received),
  the \<open>finally\<close> of a returned round runs, an armed timer fires. An event that is
  not enabled leaves the system as it is.
\<close>

datatype event =
    Call_executeOrFallback api_call string string nat
  | Call_setKey "js_string option"
  | Init_settles "thrown + response_body"
  | Round_settles nat "thrown + response_body"
  | Finally_runs
  | Timer_fires

fun timers_of :: "effect list \<Rightarrow> real list" where
  "timers_of [] = []"
| "timers_of (TimerSet d # es) = d # timers_of es"
| "timers_of (_ # es) = timers_of es"

fun posts_of :: "effect list \<Rightarrow> payload list" where
  "posts_of [] = []"
| "posts_of (Posted p _ # es) = p # posts_of es"
| "posts_of (_ # es) = posts_of es"

text \<open>The calls of the \<open>resolve\<close> or \<open>reject\<close> of promise \<open>c\<close>, in order.\<close>

fun settles :: "nat \<Rightarrow> effect \<Rightarrow> bool" where
  "settles c (Resolved c' _) = (c' = c)"
| "settles c (Rejected c' _) = (c' = c)"
| "settles c _ = False"

definition settlements :: "nat \<Rightarrow> client \<Rightarrow> effect list" where
  "settlements c s = filter (settles c) (effects s)"

definition add_started :: "started \<Rightarrow> system \<Rightarrow> system" where
  "add_started st sys =
     (case st of
        NotStarted \<Rightarrow> sys
      | ReturnedEarly \<Rightarrow> sys\<lparr>returned := returned sys + 1\<rparr>
      | InFlight rnd \<Rightarrow> sys\<lparr>rounds := rounds sys @ [rnd]\<rparr>)"

fun step :: "(string \<Rightarrow> json option) \<Rightarrow> event \<Rightarrow> system \<Rightarrow> system" where
  "step decode (Call_executeOrFallback apiCall now rnd t) sys =
     (case executeOrFallback apiCall (generateRequestKey now rnd) (promises sys) t
             (the_client sys) of
        (s, st) \<Rightarrow> add_started st (sys\<lparr>the_client := s, promises := promises sys + 1\<rparr>))"
| "step decode (Call_setKey k) sys =
     (case setKey_call k (the_client sys) of
        (s, awaiting) \<Rightarrow>
          sys\<lparr>the_client := s, inits := inits sys + (if awaiting then 1 else 0)\<rparr>)"
| "step decode (Init_settles outcome) sys =
     (if inits sys = 0 then sys
      else sys\<lparr>the_client := snd (setKey_resume outcome (the_client sys)),
               inits := inits sys - 1\<rparr>)"
| "step decode (Round_settles i outcome) sys =
     (if i < length (rounds sys)
      then sys\<lparr>the_client := processBatch_response decode outcome (rounds sys ! i)
                                (the_client sys),
               rounds := take i (rounds sys) @ drop (Suc i) (rounds sys),
               returned := returned sys + 1\<rparr>
      else sys)"
| "step decode Finally_runs sys =
     (if returned sys = 0 then sys
      else sys\<lparr>the_client := processIfNeeded_finally (the_client sys),
               returned := returned sys - 1\<rparr>)"
| "step decode Timer_fires sys =
     (if fired sys < length (timers_of (effects (the_client sys)))
      then (case processIfNeeded_call (the_client sys) of
              (s, st) \<Rightarrow> add_started st (sys\<lparr>the_client := s, fired := fired sys + 1\<rparr>))
      else sys)"

definition run :: "(string \<Rightarrow> json option) \<Rightarrow> event list \<Rightarrow> system \<Rightarrow> system" where
  "run decode evs sys = fold (step decode) evs sys"

subsection \<open>Notions used by the properties\<close>

fun is_setKey :: "event \<Rightarrow> bool" where
  "is_setKey (Call_setKey _) = True"
| "is_setKey _ = False"

text \<open>The event that ends the round at index \<open>i\<close>: the post of that round settles.\<close>

fun ends_round :: "nat \<Rightarrow> event \<Rightarrow> bool" where
  "ends_round i (Round_settles j _) = (j = i)"
| "ends_round i _ = False"

text \<open>
  The error that the \<open>catch\<close> of \<open>processBatch\<close> receives for an outcome of the post: the
  rejection itself, or what \<open>validateInitResponse\<close> or the check of its result throws;
  \<open>None\<close> when the round succeeds.
\<close>

definition failure_of :: "thrown + response_body \<Rightarrow> thrown option" where
  "failure_of outcome =
     (case outcome of
        Inl e \<Rightarrow> Some e
      | Inr body \<Rightarrow>
          (case validateInitResponse body of
             Inl e \<Rightarrow> Some e
           | Inr None \<Rightarrow> Some (Error ''Invalid batch response'')
           | Inr (Some responseData) \<Rightarrow> None))"

text \<open>
  The entries that the calls of \<open>executeOrFallback\<close> among the events \<open>evs\<close> put into the
  pending map, in order, when the events happen from \<open>sys\<close> on; a call that is routed to the
  fallback puts nothing there.
\<close>

fun enqueued ::
    "(string \<Rightarrow> json option) \<Rightarrow> event list \<Rightarrow> system \<Rightarrow> (string \<times> batch_request) list" where
  "enqueued decode [] sys = []"
| "enqueued decode (ev # evs) sys =
     (case ev of
        Call_executeOrFallback apiCall now rnd t \<Rightarrow>
          if broken (the_client sys) \<or> \<not> truthy (key (the_client sys)) then []
          else [(generateRequestKey now rnd,
                 \<lparr>requestKey = generateRequestKey now rnd, call = apiCall,
                  cont = promises sys, timestamp = t\<rparr>)]
      | _ \<Rightarrow> [])
     @ enqueued decode evs (step decode ev sys)"

text \<open>Three invariants of the reachable states.\<close>

definition rate_ok :: "client \<Rightarrow> bool" where
  "rate_ok s = (500 \<le> pollRate s \<and> pollRate s \<le> 10000)"

definition key_ok :: "client \<Rightarrow> bool" where
  "key_ok s = (key s \<noteq> Some [])"

definition queues_ok :: "client \<Rightarrow> bool" where
  "queues_ok s = (distinct (map fst (pending s)) \<and> distinct (map fst (active s))
                   \<and> distinct (completed s))"

text \<open>
  The promises whose \<open>resolve\<close>/\<open>reject\<close> pair is stored in a map, and those that the
  client or a suspended round holds.
\<close>

definition conts_of :: "(string \<times> batch_request) list \<Rightarrow> nat set" where
  "conts_of m = cont ` snd ` set m"

definition held :: "system \<Rightarrow> nat set" where
  "held sys = conts_of (pending (the_client sys)) \<union> conts_of (active (the_client sys))
                \<union> (\<Union>rnd \<in> set (rounds sys). conts_of (batchToSend rnd))"

subsection \<open>Example values\<close>

text \<open>A decoder that knows two JSON texts and refuses every other string.\<close>

definition demo_decode :: "string \<Rightarrow> json option" where
  \<open>demo_decode s =
     (if s = ''{"result":42}'' then Some (JObj [(''result'', JNum 42)])
      else if s = ''[1]'' then Some (JArr [JNum 1])
      else None)\<close>

definition demo_call :: api_call where
  "demo_call = \<lparr>call_method = ''b24Call'', params = Some [JStr ''user.current'']\<rparr>"

definition demo_request :: "string \<Rightarrow> nat \<Rightarrow> batch_request" where
  "demo_request k c = \<lparr>requestKey = k, call = demo_call, cont = c, timestamp = 0\<rparr>"

text \<open>A connected, idle client with one request in each map and one completed key.\<close>

definition demo_client :: client where
  "demo_client = new_client\<lparr>key := Some (utf16 ''abc''),
     pending := [(''A'', demo_request ''A'' 0)],
     active := [(''C'', demo_request ''C'' 1)],
     completed := [''D'']\<rparr>"

text \<open>The same client while its round is in flight, and what that round holds.\<close>

definition demo_inflight :: client where
  "demo_inflight = demo_client\<lparr>pending := [], completed := [], processing := True\<rparr>"

definition demo_round :: round where
  "demo_round = \<lparr>batchToSend = [(''A'', demo_request ''A'' 0)], completedSnapshot = [''D'']\<rparr>"

definition demo_idle_round :: round where
  "demo_idle_round = \<lparr>batchToSend = [], completedSnapshot = [''D'']\<rparr>"

definition http_error :: "int \<Rightarrow> string option \<Rightarrow> thrown" where
  "http_error st msg = \<lparr>instanceof_Error = True, message = ''Request failed'',
     response = Some \<lparr>status = st, data_message = msg\<rparr>\<rparr>"

definition timeout_error :: thrown where
  "timeout_error = Error ''timeout of 1000ms exceeded''"

definition data_with :: "real option \<Rightarrow> server_result list option \<Rightarrow> created_item list option
    \<Rightarrow> batch_data" where
  "data_with i rs cs = \<lparr>intervalMs = i, results = rs, created = cs, cleanupCount = None\<rparr>"

text \<open>A response that reports the active request \<open>C\<close> as done, with a wrapped result.\<close>

definition demo_done_body :: response_body where
  \<open>demo_done_body = DirectData (data_with None
     (Some [\<lparr>res_requestKey = ''C'', res_status = Done,
             res_result = Some (JStr ''{"result":42}''), res_isError = None\<rparr>]) None)\<close>



text \<open>
  A run from the start: the key is set, one request is submitted, and the post of its
  round rejects with \<open>e\<close>. After a timeout the client is idle with that request pending.
\<close>

definition demo_failed_round :: "thrown \<Rightarrow> event list" where
  "demo_failed_round e =
     [Call_setKey (Some (utf16 ''abc'')),
      Init_settles (Inr (DirectData (data_with (Some 1000) None None))),
      Call_executeOrFallback demo_call ''1'' ''r'' 5,
      Round_settles 0 (Inl e),
      Finally_runs]"

text \<open>After that trace with a timeout: one request pending, nothing in flight.\<close>

definition demo_idle :: system where
  "demo_idle = run demo_decode (demo_failed_round timeout_error) new_system"

text \<open>
  A request is submitted and its round acknowledges it; a second request is submitted
  after that round has ended. The system is shown just before the second call: the first
  request is active and nothing is in flight.
\<close>

definition demo_created_body :: response_body where
  "demo_created_body = DirectData (data_with None None
     (Some [\<lparr>item_requestKey = ''req_1_r'', item_status = ''pending''\<rparr>]))"

definition demo_polling :: system where
  "demo_polling = run demo_decode
     [Call_setKey (Some (utf16 ''abc'')),
      Init_settles (Inr (DirectData (data_with (Some 1000) None None))),
      Call_executeOrFallback demo_call ''1'' ''r'' 5,
      Round_settles 0 (Inr demo_created_body),
      Finally_runs] new_system"

text \<open>
  A request is submitted while connected, and the round that carried it succeeds with a
  response whose \<open>created\<close> list does not mention it.
\<close>

definition lost_trace :: "event list" where
  "lost_trace =
     [Call_setKey (Some (utf16 ''abc'')),
      Init_settles (Inr (DirectData (data_with (Some 1000) None None))),
      Call_executeOrFallback demo_call ''1'' ''r'' 5,
      Round_settles 0 (Inr (OkAndData True (Some (data_with (Some 1000) (Some []) (Some []))))),
      Finally_runs]"

text \<open>
  \<open>setKey\<close> is called again while a round is in flight, and another request is
  submitted before the post of that round settles.
\<close>

definition overlap_trace :: "event list" where
  "overlap_trace =
     [Call_setKey (Some (utf16 ''abc'')),
      Init_settles (Inr (DirectData (data_with (Some 1000) None None))),
      Call_executeOrFallback demo_call ''1'' ''r'' 5,
      Call_setKey (Some (utf16 ''abc'')),
      Call_executeOrFallback demo_call ''2'' ''r'' 6]"

text \<open>
  The key is changed while the round that carries a request is in flight; the round then
  succeeds, its \<open>finally\<close> runs and the timer it armed fires.
\<close>

definition carried_trace :: "event list" where
  "carried_trace =
     [Call_setKey (Some (utf16 ''abc'')),
      Init_settles (Inr (DirectData (data_with (Some 1000) None None))),
      Call_executeOrFallback demo_call ''1'' ''r'' 5,
      Call_setKey (Some (utf16 ''xyz'')),
      Init_settles (Inr (DirectData (data_with (Some 1000) None None))),
      Round_settles 0 (Inr demo_created_body),
      Finally_runs,
      Timer_fires]"

section \<open>Properties\<close>

subsection \<open>Unfolding the client on concrete states\<close>

lemmas eval_defs =
  new_client_def demo_client_def demo_request_def demo_call_def demo_round_def
  demo_inflight_def demo_idle_round_def data_with_def http_error_def timeout_error_def Error_def
  processBatch_response_def validateInitResponse_def handleBatchResponse_def
  handleBatchError_def handle_created_def handle_result_def isCriticalError_def
  resetState_def notifyStateChange_def getState_def emit_def reject_def resolve_def
  getErrorMessage_def clamp_rate_def set_add_def or_else_def Let_def
  processIfNeeded_call_def processBatch_request_def processIfNeeded_finally_def
  executeOrFallback_def

lemmas second_defs =
  processBatch_response_second_def handleBatchResponse_second_def handle_result_second_def

lemmas run_defs =
  setKey_call_def setKey_resume_def initializeConnection_request_def
  initializeConnection_response_def initializeConnection_catch_def normalize_key_def trim_def
  is_space_def add_started_def generateRequestKey_def utf16_def

lemma utf16_Nil_iff [simp]: "utf16 s = [] \<longleftrightarrow> s = []"
  by (simp add: utf16_def)

subsection \<open>What each method leaves unchanged\<close>

lemma timers_of_append [simp]: "timers_of (xs @ ys) = timers_of xs @ timers_of ys"
  by (induction xs rule: timers_of.induct) simp_all

lemma posts_of_append [simp]: "posts_of (xs @ ys) = posts_of xs @ posts_of ys"
  by (induction xs rule: posts_of.induct) simp_all

lemma timers_of_rejections [simp]: "timers_of (map (\<lambda>r. Rejected (f r) m) rs) = []"
  by (induction rs) simp_all

lemma posts_of_rejections [simp]: "posts_of (map (\<lambda>r. Rejected (f r) m) rs) = []"
  by (induction rs) simp_all

lemma emit_fields [simp]:
  "key (emit es s) = key s" "pollRate (emit es s) = pollRate s" "broken (emit es s) = broken s"
  "pending (emit es s) = pending s" "active (emit es s) = active s"
  "completed (emit es s) = completed s" "processing (emit es s) = processing s"
  "error (emit es s) = error s" "effects (emit es s) = effects s @ es"
  by (simp_all add: emit_def)

lemma getState_emit [simp]: "getState (emit es s) = getState s"
  by (simp add: getState_def)

lemma notifyStateChange_fields [simp]:
  "key (notifyStateChange s) = key s" "pollRate (notifyStateChange s) = pollRate s"
  "broken (notifyStateChange s) = broken s" "pending (notifyStateChange s) = pending s"
  "active (notifyStateChange s) = active s" "completed (notifyStateChange s) = completed s"
  "processing (notifyStateChange s) = processing s" "error (notifyStateChange s) = error s"
  "effects (notifyStateChange s) = effects s @ [Notified (getState s)]"
  by (simp_all add: notifyStateChange_def)

lemma resetState_fields [simp]:
  "key (resetState s) = key s" "pollRate (resetState s) = pollRate s"
  "broken (resetState s) = broken s" "pending (resetState s) = []"
  "active (resetState s) = []" "completed (resetState s) = []"
  "processing (resetState s) = False" "error (resetState s) = error s"
  by (simp_all add: resetState_def Let_def)

lemma resetState_effects:
  "effects (resetState s) =
     effects s @ map (\<lambda>req. Rejected (cont req) ''Connection reset'')
                   (map snd (pending s) @ map snd (active s))
     @ [Notified (getState (s\<lparr>pending := [], active := [], completed := [],
                             processing := False\<rparr>))]"
  by (simp add: resetState_def Let_def getState_def)

lemma handle_result_fields [simp]:
  "key (handle_result decode r s) = key s" "pollRate (handle_result decode r s) = pollRate s"
  "broken (handle_result decode r s) = broken s" "pending (handle_result decode r s) = pending s"
  "processing (handle_result decode r s) = processing s"
  "error (handle_result decode r s) = error s"
  "timers_of (effects (handle_result decode r s)) = timers_of (effects s)"
  "posts_of (effects (handle_result decode r s)) = posts_of (effects s)"
  by (simp_all add: handle_result_def resolve_def reject_def Let_def split: option.splits)

lemma handle_created_fields [simp]:
  "key (handle_created batch c s) = key s" "pollRate (handle_created batch c s) = pollRate s"
  "broken (handle_created batch c s) = broken s"
  "pending (handle_created batch c s) = pending s"
  "completed (handle_created batch c s) = completed s"
  "processing (handle_created batch c s) = processing s"
  "error (handle_created batch c s) = error s"
  "timers_of (effects (handle_created batch c s)) = timers_of (effects s)"
  "posts_of (effects (handle_created batch c s)) = posts_of (effects s)"
  by (simp_all add: handle_created_def reject_def split: option.splits)

lemma fold_handle_result_fields [simp]:
  "key (fold (handle_result decode) rs s) = key s"
  "pollRate (fold (handle_result decode) rs s) = pollRate s"
  "broken (fold (handle_result decode) rs s) = broken s"
  "pending (fold (handle_result decode) rs s) = pending s"
  "processing (fold (handle_result decode) rs s) = processing s"
  "error (fold (handle_result decode) rs s) = error s"
  "timers_of (effects (fold (handle_result decode) rs s)) = timers_of (effects s)"
  "posts_of (effects (fold (handle_result decode) rs s)) = posts_of (effects s)"
  by (induction rs arbitrary: s; simp)+

lemma fold_handle_created_fields [simp]:
  "key (fold (handle_created batch) cs s) = key s"
  "pollRate (fold (handle_created batch) cs s) = pollRate s"
  "broken (fold (handle_created batch) cs s) = broken s"
  "pending (fold (handle_created batch) cs s) = pending s"
  "completed (fold (handle_created batch) cs s) = completed s"
  "processing (fold (handle_created batch) cs s) = processing s"
  "error (fold (handle_created batch) cs s) = error s"
  "timers_of (effects (fold (handle_created batch) cs s)) = timers_of (effects s)"
  "posts_of (effects (fold (handle_created batch) cs s)) = posts_of (effects s)"
  by (induction cs arbitrary: s; simp)+

lemma handleBatchResponse_fields [simp]:
  "key (handleBatchResponse decode d batch s) = key s"
  "broken (handleBatchResponse decode d batch s) = broken s"
  "pending (handleBatchResponse decode d batch s) = pending s"
  "processing (handleBatchResponse decode d batch s) = processing s"
  "error (handleBatchResponse decode d batch s) = error s"
  "timers_of (effects (handleBatchResponse decode d batch s)) = timers_of (effects s)"
  "posts_of (effects (handleBatchResponse decode d batch s)) = posts_of (effects s)"
  by (simp_all add: handleBatchResponse_def Let_def split: option.splits)

lemma handleBatchResponse_pollRate:
  "pollRate (handleBatchResponse decode d batch s) =
     (case intervalMs d of Some x \<Rightarrow> clamp_rate x | None \<Rightarrow> pollRate s)"
  by (simp add: handleBatchResponse_def Let_def split: option.splits)

lemma processIfNeeded_finally_fields [simp]:
  "key (processIfNeeded_finally s) = key s" "pollRate (processIfNeeded_finally s) = pollRate s"
  "broken (processIfNeeded_finally s) = broken s"
  "pending (processIfNeeded_finally s) = pending s"
  "active (processIfNeeded_finally s) = active s"
  "completed (processIfNeeded_finally s) = completed s"
  "processing (processIfNeeded_finally s) = False"
  "error (processIfNeeded_finally s) = error s"
  "timers_of (effects (processIfNeeded_finally s)) = timers_of (effects s)"
  "posts_of (effects (processIfNeeded_finally s)) = posts_of (effects s)"
  by (simp_all add: processIfNeeded_finally_def)

subsection \<open>The second copy leaves the same fields alone\<close>

lemma handle_result_second_fields [simp]:
  "key (handle_result_second decode r s) = key s"
  "pollRate (handle_result_second decode r s) = pollRate s"
  "broken (handle_result_second decode r s) = broken s"
  "pending (handle_result_second decode r s) = pending s"
  "processing (handle_result_second decode r s) = processing s"
  "error (handle_result_second decode r s) = error s"
  "timers_of (effects (handle_result_second decode r s)) = timers_of (effects s)"
  "posts_of (effects (handle_result_second decode r s)) = posts_of (effects s)"
  by (simp_all add: handle_result_second_def resolve_def reject_def Let_def split: option.splits)

lemma fold_handle_result_second_fields [simp]:
  "key (fold (handle_result_second decode) rs s) = key s"
  "pollRate (fold (handle_result_second decode) rs s) = pollRate s"
  "broken (fold (handle_result_second decode) rs s) = broken s"
  "pending (fold (handle_result_second decode) rs s) = pending s"
  "processing (fold (handle_result_second decode) rs s) = processing s"
  "error (fold (handle_result_second decode) rs s) = error s"
  "timers_of (effects (fold (handle_result_second decode) rs s)) = timers_of (effects s)"
  "posts_of (effects (fold (handle_result_second decode) rs s)) = posts_of (effects s)"
  by (induction rs arbitrary: s; simp)+

lemma handleBatchResponse_second_fields [simp]:
  "key (handleBatchResponse_second decode d batch s) = key s"
  "broken (handleBatchResponse_second decode d batch s) = broken s"
  "pending (handleBatchResponse_second decode d batch s) = pending s"
  "processing (handleBatchResponse_second decode d batch s) = processing s"
  "error (handleBatchResponse_second decode d batch s) = error s"
  "timers_of (effects (handleBatchResponse_second decode d batch s)) = timers_of (effects s)"
  "posts_of (effects (handleBatchResponse_second decode d batch s)) = posts_of (effects s)"
  by (simp_all add: handleBatchResponse_second_def Let_def split: option.splits)

subsection \<open>Result parsing\<close>

text \<open>
  C3, as the code has it. In both copies of the class \<open>parseResult\<close> is applied once to
  the result of a successful (not \<open>isError\<close>) entry before the request is resolved, a
  string is JSON-decoded, and a string that does not decode is returned unchanged. What
  follows differs. In \<open>dev/key-bridge/KeyBridgeClient.ts\<close>: when decoding yields an object
  with a \<open>result\<close> field that field is returned, any other decoded value is returned as it
  is, and a value that is not a string is returned unchanged unless it is an object with
  both a \<open>method\<close> and a \<open>result\<close> field, whose \<open>result\<close> field is returned. In the second
  copy (\<open>unnamed/part_000\<close>) nothing is unwrapped: the decoded value is returned as it is,
  whatever it is, and every value that is not a string is returned unchanged.
\<close>

theorem parseResult_policy:
  "(decode s = None \<longrightarrow> parseResult decode (Some (JStr s)) = Some (JStr s))
   \<and> (decode s = Some (JObj kvs) \<and> map_of kvs ''result'' = Some r
        \<longrightarrow> parseResult decode (Some (JStr s)) = Some r)
   \<and> (decode s = Some p \<and> (\<forall>kvs. p = JObj kvs \<longrightarrow> map_of kvs ''result'' = None)
        \<longrightarrow> parseResult decode (Some (JStr s)) = Some p)
   \<and> (v = Some (JObj kvs') \<and> map_of kvs' ''method'' = Some m \<and> map_of kvs' ''result'' = Some r'
        \<longrightarrow> parseResult decode v = Some r')
   \<and> ((\<forall>s. v \<noteq> Some (JStr s))
        \<and> (\<forall>kvs. v = Some (JObj kvs) \<longrightarrow> map_of kvs ''method'' = None \<or> map_of kvs ''result'' = None)
        \<longrightarrow> parseResult decode v = v)
   \<and> (map_of (active st) (res_requestKey res) = Some request \<and> res_status res = Done
        \<and> res_isError res \<noteq> Some True
        \<longrightarrow> effects (handle_result decode res st)
            = effects st @ [Resolved (cont request) (parseResult decode (res_result res))])
   \<and> (decode s = None \<longrightarrow> parseResult_second decode (Some (JStr s)) = Some (JStr s))
   \<and> (decode s = Some p \<longrightarrow> parseResult_second decode (Some (JStr s)) = Some p)
   \<and> ((\<forall>s. v \<noteq> Some (JStr s)) \<longrightarrow> parseResult_second decode v = v)
   \<and> (map_of (active st) (res_requestKey res) = Some request \<and> res_status res = Done
        \<and> res_isError res \<noteq> Some True
        \<longrightarrow> effects (handle_result_second decode res st)
            = effects st
              @ [Resolved (cont request) (parseResult_second decode (res_result res))])"
proof (intro conjI impI)
  show "parseResult decode (Some (JStr s)) = Some (JStr s)" if "decode s = None"
    using that by (simp add: parseResult_def)
  show "parseResult decode (Some (JStr s)) = Some r"
    if "decode s = Some (JObj kvs) \<and> map_of kvs ''result'' = Some r"
    using that by (simp add: parseResult_def)
  show "parseResult decode (Some (JStr s)) = Some p"
    if "decode s = Some p \<and> (\<forall>kvs. p = JObj kvs \<longrightarrow> map_of kvs ''result'' = None)"
    using that by (cases p) (simp_all add: parseResult_def)
  show "parseResult decode v = Some r'"
    if "v = Some (JObj kvs') \<and> map_of kvs' ''method'' = Some m \<and> map_of kvs' ''result'' = Some r'"
    using that by (simp add: parseResult_def)
  show "parseResult decode v = v"
    if "(\<forall>s. v \<noteq> Some (JStr s))
        \<and> (\<forall>kvs. v = Some (JObj kvs) \<longrightarrow> map_of kvs ''method'' = None \<or> map_of kvs ''result'' = None)"
  proof (cases v)
    case None
    then show ?thesis by (simp add: parseResult_def)
  next
    case (Some j)
    with that show ?thesis by (cases j) (auto simp add: parseResult_def)
  qed
  show "effects (handle_result decode res st)
            = effects st @ [Resolved (cont request) (parseResult decode (res_result res))]"
    if "map_of (active st) (res_requestKey res) = Some request \<and> res_status res = Done
        \<and> res_isError res \<noteq> Some True"
    using that by (simp add: handle_result_def resolve_def emit_def Let_def)
  show "parseResult_second decode (Some (JStr s)) = Some (JStr s)" if "decode s = None"
    using that by (simp add: parseResult_second_def)
  show "parseResult_second decode (Some (JStr s)) = Some p" if "decode s = Some p"
    using that by (simp add: parseResult_second_def)
  show "parseResult_second decode v = v" if "\<forall>s. v \<noteq> Some (JStr s)"
  proof (cases v)
    case None
    then show ?thesis by (simp add: parseResult_second_def)
  next
    case (Some j)
    with that show ?thesis by (cases j) (simp_all add: parseResult_second_def)
  qed
  show "effects (handle_result_second decode res st)
            = effects st
              @ [Resolved (cont request) (parseResult_second decode (res_result res))]"
    if "map_of (active st) (res_requestKey res) = Some request \<and> res_status res = Done
        \<and> res_isError res \<noteq> Some True"
    using that by (simp add: handle_result_second_def resolve_def emit_def Let_def)
qed

text \<open>
  Both policies at work on an undecodable string, the wrapped \<open>{"result":42}\<close>, a decoded
  array, an object shaped \<open>{method, result}\<close>, an object with \<open>result\<close> only, and on the
  active request \<open>C\<close> of the example client.
\<close>

theorem parseResult_policy_witness:
  \<open>parseResult demo_decode (Some (JStr ''not json'')) = Some (JStr ''not json'')
   \<and> parseResult demo_decode (Some (JStr ''{"result":42}'')) = Some (JNum 42)
   \<and> parseResult demo_decode (Some (JStr ''[1]'')) = Some (JArr [JNum 1])
   \<and> parseResult demo_decode (Some (JObj [(''method'', JStr ''m''), (''result'', JNum 7)]))
       = Some (JNum 7)
   \<and> parseResult demo_decode (Some (JObj [(''result'', JNum 7)]))
       = Some (JObj [(''result'', JNum 7)])
   \<and> effects (handle_result demo_decode
         \<lparr>res_requestKey = ''C'', res_status = Done,
          res_result = Some (JStr ''{"result":42}''), res_isError = None\<rparr> demo_client)
       = effects demo_client @ [Resolved 1 (Some (JNum 42))]
   \<and> parseResult_second demo_decode (Some (JStr ''not json'')) = Some (JStr ''not json'')
   \<and> parseResult_second demo_decode (Some (JStr ''[1]'')) = Some (JArr [JNum 1])
   \<and> parseResult_second demo_decode (Some (JObj [(''result'', JNum 7)]))
       = Some (JObj [(''result'', JNum 7)])
   \<and> effects (handle_result_second demo_decode
         \<lparr>res_requestKey = ''C'', res_status = Done,
          res_result = Some (JStr ''[1]''), res_isError = None\<rparr> demo_client)
       = effects demo_client @ [Resolved 1 (Some (JArr [JNum 1]))]\<close>
proof -
  note p = parseResult_policy [where decode = demo_decode]
  have a: \<open>parseResult demo_decode (Some (JStr ''not json'')) = Some (JStr ''not json'')\<close>
    using p [where s = "''not json''"] by (simp add: demo_decode_def)
  have b: \<open>parseResult demo_decode (Some (JStr ''{"result":42}'')) = Some (JNum 42)\<close>
    using p [where s = \<open>''{"result":42}''\<close> and kvs = "[(''result'', JNum 42)]" and r = "JNum 42"]
    by (simp add: demo_decode_def)
  have c: \<open>parseResult demo_decode (Some (JStr ''[1]'')) = Some (JArr [JNum 1])\<close>
    using p [where s = "''[1]''" and p = "JArr [JNum 1]"] by (simp add: demo_decode_def)
  have d: \<open>parseResult demo_decode (Some (JObj [(''method'', JStr ''m''), (''result'', JNum 7)]))
       = Some (JNum 7)\<close>
    using p [where v = "Some (JObj [(''method'', JStr ''m''), (''result'', JNum 7)])"
        and kvs' = "[(''method'', JStr ''m''), (''result'', JNum 7)]"
        and m = "JStr ''m''" and r' = "JNum 7"]
    by simp
  have e: \<open>parseResult demo_decode (Some (JObj [(''result'', JNum 7)]))
       = Some (JObj [(''result'', JNum 7)])\<close>
    using p [where v = "Some (JObj [(''result'', JNum 7)])"] by simp
  have f: \<open>effects (handle_result demo_decode
         \<lparr>res_requestKey = ''C'', res_status = Done,
          res_result = Some (JStr ''{"result":42}''), res_isError = None\<rparr> demo_client)
       = effects demo_client @ [Resolved 1 (Some (JNum 42))]\<close>
    using p [where st = demo_client and request = "demo_request ''C'' 1"
        and res = \<open>\<lparr>res_requestKey = ''C'', res_status = Done,
          res_result = Some (JStr ''{"result":42}''), res_isError = None\<rparr>\<close>] b
    by (simp add: demo_client_def demo_request_def)
  have g: \<open>parseResult_second demo_decode (Some (JStr ''not json'')) = Some (JStr ''not json'')\<close>
    using p [where s = "''not json''"] by (simp add: demo_decode_def)
  have h: \<open>parseResult_second demo_decode (Some (JStr ''[1]'')) = Some (JArr [JNum 1])\<close>
    using p [where s = "''[1]''" and p = "JArr [JNum 1]"] by (simp add: demo_decode_def)
  have i: \<open>parseResult_second demo_decode (Some (JObj [(''result'', JNum 7)]))
       = Some (JObj [(''result'', JNum 7)])\<close>
    using p [where v = "Some (JObj [(''result'', JNum 7)])"] by simp
  have j: \<open>effects (handle_result_second demo_decode
         \<lparr>res_requestKey = ''C'', res_status = Done,
          res_result = Some (JStr ''[1]''), res_isError = None\<rparr> demo_client)
       = effects demo_client @ [Resolved 1 (Some (JArr [JNum 1]))]\<close>
    using p [where st = demo_client and request = "demo_request ''C'' 1"
        and res = \<open>\<lparr>res_requestKey = ''C'', res_status = Done,
          res_result = Some (JStr ''[1]''), res_isError = None\<rparr>\<close>] h
    by (simp add: demo_client_def demo_request_def)
  from a b c d e f g h i j show ?thesis by blast
qed

text \<open>
  The claim as stated fails on the second copy. There the string \<open>{"result":42}\<close> is
  resolved as the decoded object, not as its \<open>result\<close> field 42, and an object shaped
  \<open>{method, result}\<close> is resolved whole, not as its \<open>result\<close> field.
\<close>

theorem parseResult_second_counterexample:
  \<open>parseResult_second demo_decode (Some (JStr ''{"result":42}''))
       = Some (JObj [(''result'', JNum 42)])
   \<and> parseResult_second demo_decode (Some (JStr ''{"result":42}'')) \<noteq> Some (JNum 42)
   \<and> parseResult_second demo_decode
         (Some (JObj [(''method'', JStr ''m''), (''result'', JNum 7)]))
       = Some (JObj [(''method'', JStr ''m''), (''result'', JNum 7)])
   \<and> parseResult_second demo_decode
         (Some (JObj [(''method'', JStr ''m''), (''result'', JNum 7)])) \<noteq> Some (JNum 7)
   \<and> effects (handle_result_second demo_decode
         \<lparr>res_requestKey = ''C'', res_status = Done,
          res_result = Some (JStr ''{"result":42}''), res_isError = None\<rparr> demo_client)
       = effects demo_client @ [Resolved 1 (Some (JObj [(''result'', JNum 42)]))]\<close>
  by (simp add: parseResult_second_def handle_result_second_def demo_decode_def demo_client_def
      demo_request_def resolve_def emit_def Let_def)

subsection \<open>Re-arming after a successful round\<close>

text \<open>
  C2, as the code has it. When the post of a round returns a body that
  \<open>validateInitResponse\<close> accepts, the round is reconciled by \<open>handleBatchResponse\<close>; after
  that one timer of \<open>pollRate\<close> milliseconds (the rate after reconciliation) is armed to
  call \<open>processIfNeeded\<close>, in \<open>dev/key-bridge/KeyBridgeClient.ts\<close> exactly when one of the
  three queues \<open>pending\<close>, \<open>active\<close>, \<open>completed\<close> is non-empty, and in the second copy
  (\<open>unnamed/part_000\<close>) exactly when \<open>pending\<close> or \<open>active\<close> is non-empty, \<open>completed\<close> not
  being looked at. In both copies neither reconciliation nor the \<open>finally\<close> of
  \<open>processIfNeeded\<close> arms another timer, so no timer is armed when all three queues are
  empty.
\<close>

theorem processBatch_rearms_timer:
  assumes "validateInitResponse body = Inr (Some d)"
    and "s' = processBatch_response decode (Inr body) rnd s"
    and "s2 = processBatch_response_second decode (Inr body) rnd s"
  shows "timers_of (effects s') = timers_of (effects s) @
           (if pending s' \<noteq> [] \<or> active s' \<noteq> [] \<or> completed s' \<noteq> []
            then [pollRate s'] else [])
         \<and> timers_of (effects (processIfNeeded_finally s')) = timers_of (effects s')
         \<and> timers_of (effects s2) = timers_of (effects s) @
           (if pending s2 \<noteq> [] \<or> active s2 \<noteq> [] then [pollRate s2] else [])
         \<and> timers_of (effects (processIfNeeded_finally s2)) = timers_of (effects s2)"
  using assms by (simp add: processBatch_response_def processBatch_response_second_def Let_def)

text \<open>
  A round that promotes \<open>A\<close> to active under a new rate of 1000 re-arms with 1000 in both
  copies; a round that only reported the completed key \<open>D\<close> leaves every queue empty and
  arms nothing in either.
\<close>

theorem processBatch_rearms_timer_witness:
  "timers_of (effects (processBatch_response demo_decode
      (Inr (DirectData (data_with (Some 1000) None
         (Some [\<lparr>item_requestKey = ''A'', item_status = ''pending''\<rparr>]))))
      demo_round demo_inflight)) = [1000]
   \<and> timers_of (effects (processBatch_response demo_decode
      (Inr (DirectData (data_with None None None)))
      demo_idle_round (demo_inflight\<lparr>active := []\<rparr>))) = []
   \<and> timers_of (effects (processBatch_response_second demo_decode
      (Inr (DirectData (data_with (Some 1000) None
         (Some [\<lparr>item_requestKey = ''A'', item_status = ''pending''\<rparr>]))))
      demo_round demo_inflight)) = [1000]
   \<and> timers_of (effects (processBatch_response_second demo_decode
      (Inr (DirectData (data_with None None None)))
      demo_idle_round (demo_inflight\<lparr>active := []\<rparr>))) = []"
proof -
  have a: "validateInitResponse (DirectData d) = Inr (Some d)" for d
    by (simp add: validateInitResponse_def)
  have "timers_of (effects (processBatch_response demo_decode
      (Inr (DirectData (data_with (Some 1000) None
         (Some [\<lparr>item_requestKey = ''A'', item_status = ''pending''\<rparr>]))))
      demo_round demo_inflight)) = [1000]"
    using processBatch_rearms_timer [OF a refl refl, of demo_decode _ demo_round demo_inflight,
        THEN conjunct1]
    by (simp add: eval_defs)
  moreover have "timers_of (effects (processBatch_response demo_decode
      (Inr (DirectData (data_with None None None)))
      demo_idle_round (demo_inflight\<lparr>active := []\<rparr>))) = []"
    using processBatch_rearms_timer [OF a refl refl, of demo_decode _ demo_idle_round
        "demo_inflight\<lparr>active := []\<rparr>", THEN conjunct1]
    by (simp add: eval_defs)
  moreover have "timers_of (effects (processBatch_response_second demo_decode
      (Inr (DirectData (data_with (Some 1000) None
         (Some [\<lparr>item_requestKey = ''A'', item_status = ''pending''\<rparr>]))))
      demo_round demo_inflight)) = [1000]"
    using processBatch_rearms_timer [OF a refl refl, of demo_decode _ demo_round demo_inflight,
        THEN conjunct2, THEN conjunct2, THEN conjunct1]
    by (simp add: eval_defs second_defs)
  moreover have "timers_of (effects (processBatch_response_second demo_decode
      (Inr (DirectData (data_with None None None)))
      demo_idle_round (demo_inflight\<lparr>active := []\<rparr>))) = []"
    using processBatch_rearms_timer [OF a refl refl, of demo_decode _ demo_idle_round
        "demo_inflight\<lparr>active := []\<rparr>", THEN conjunct2, THEN conjunct2, THEN conjunct1]
    by (simp add: eval_defs second_defs)
  ultimately show ?thesis by simp
qed

text \<open>
  The claim as stated fails on the second copy. The example client has \<open>C\<close> active and
  nothing pending while its round is in flight; the response reports \<open>C\<close> as done. After
  reconciliation \<open>completed\<close> holds \<open>C\<close>, so one of the three queues is non-empty, and the
  second copy arms no timer; the first copy arms one.
\<close>

theorem completed_only_counterexample:
  "completed (processBatch_response_second demo_decode (Inr demo_done_body)
      demo_idle_round demo_inflight) = [''C'']
   \<and> pending (processBatch_response_second demo_decode (Inr demo_done_body)
      demo_idle_round demo_inflight) = []
   \<and> active (processBatch_response_second demo_decode (Inr demo_done_body)
      demo_idle_round demo_inflight) = []
   \<and> timers_of (effects (processBatch_response_second demo_decode (Inr demo_done_body)
      demo_idle_round demo_inflight)) = []
   \<and> timers_of (effects (processBatch_response demo_decode (Inr demo_done_body)
      demo_idle_round demo_inflight)) = [500]"
  by (simp add: eval_defs second_defs demo_done_body_def demo_decode_def parseResult_def
      parseResult_second_def)

subsection \<open>Rolling a snapshot back\<close>

lemma update_fresh: "k \<notin> fst ` set m \<Longrightarrow> AList.update k v m = m @ [(k, v)]"
  by (induction m) auto

lemma restore_disjoint:
  "distinct (map fst batch) \<Longrightarrow> fst ` set batch \<inter> fst ` set m = {}
   \<Longrightarrow> fold (\<lambda>(k, request). AList.update k request) batch m = m @ batch"
proof (induction batch arbitrary: m)
  case Nil
  then show ?case by simp
next
  case (Cons p batch)
  obtain k v where p: "p = (k, v)" by (cases p)
  from Cons.prems p have fresh: "k \<notin> fst ` set m" by auto
  from Cons.prems p have "fst ` set batch \<inter> fst ` set (m @ [(k, v)]) = {}"
    by (auto simp: image_iff)
  with Cons.IH [of "m @ [(k, v)]"] Cons.prems p fresh show ?case
    by (simp add: update_fresh)
qed

lemma restore_keys:
  "fst ` set (fold (\<lambda>(k, request). AList.update k request) batch m)
     = fst ` set batch \<union> fst ` set m"
  by (induction batch arbitrary: m) (auto simp: AList.dom_update split: prod.splits)

lemma restore_distinct:
  "distinct (map fst m)
   \<Longrightarrow> distinct (map fst (fold (\<lambda>(k, request). AList.update k request) batch m))"
  by (induction batch arbitrary: m) (auto simp: AList.distinct_update split: prod.splits)

lemma restore_map_of:
  "distinct (map fst batch)
   \<Longrightarrow> map_of (fold (\<lambda>(k, request). AList.update k request) batch m) = map_of m ++ map_of batch"
proof (induction batch arbitrary: m)
  case Nil
  then show ?case by simp
next
  case (Cons p batch)
  obtain k v where p: "p = (k, v)" by (cases p)
  with Cons.prems have k: "k \<notin> fst ` set batch" by force
  then have none: "map_of batch k = None" by (simp add: map_of_eq_None_iff)
  have "map_of (fold (\<lambda>(k, request). AList.update k request) (p # batch) m)
      = map_of (AList.update k v m) ++ map_of batch"
    using Cons.IH [of "AList.update k v m"] Cons.prems p by simp
  also have "\<dots> = (map_of m)(k \<mapsto> v) ++ map_of batch"
    by (simp add: AList.update_conv')
  also have "\<dots> = map_of m ++ map_of (p # batch)"
    using none p by (auto simp: map_add_def fun_eq_iff split: option.splits)
  finally show ?case .
qed

lemma set_fold_set_add: "set (fold set_add xs ys) = set xs \<union> set ys"
  by (induction xs arbitrary: ys) (auto simp: set_add_def)

lemma distinct_fold_set_add: "distinct ys \<Longrightarrow> distinct (fold set_add xs ys)"
  by (induction xs arbitrary: ys) (auto simp: set_add_def)

lemma fold_set_add_Nil: "distinct xs \<Longrightarrow> fold set_add xs ys = ys @ [x \<leftarrow> xs. x \<notin> set ys]"
proof (induction xs arbitrary: ys)
  case Nil
  then show ?case by simp
next
  case (Cons x xs)
  then have "[y \<leftarrow> xs. y \<notin> set (ys @ [x])] = [y \<leftarrow> xs. y \<notin> set ys]"
    by (auto intro: filter_cong)
  with Cons show ?case by (simp add: set_add_def)
qed

subsection \<open>Failure handling\<close>

lemma settlements_emit_other [simp]:
  "settlements c (emit [TimerSet d] s) = settlements c s"
  "settlements c (notifyStateChange s) = settlements c s"
  by (simp_all add: settlements_def)

lemma handleBatchError_transient:
  assumes "\<not> isCriticalError e"
  shows "active (handleBatchError e batch snapshot s) = active s"
    and "pending (handleBatchError e batch snapshot s)
           = fold (\<lambda>(k, request). AList.update k request) batch (pending s)"
    and "completed (handleBatchError e batch snapshot s) = fold set_add snapshot (completed s)"
    and "broken (handleBatchError e batch snapshot s) = broken s"
    and "key (handleBatchError e batch snapshot s) = key s"
    and "pollRate (handleBatchError e batch snapshot s) = pollRate s"
    and "processing (handleBatchError e batch snapshot s) = processing s"
    and "error (handleBatchError e batch snapshot s) = Some (getErrorMessage e)"
    and "effects (handleBatchError e batch snapshot s)
           = effects s @ [TimerSet (min 2000 (pollRate s)),
                          Notified (getState (handleBatchError e batch snapshot s))]"
  using assms by (simp_all add: handleBatchError_def Let_def getState_def)

text \<open>
  C10. A round that fails with an error that is not critical leaves the active map as it
  was. Failure handling puts the snapshot's pending entries back into the pending map and
  the snapshot's completed keys back into the completed set, arms the retry timer and
  notifies; it calls no \<open>resolve\<close> and no \<open>reject\<close>.
\<close>

theorem transient_failure_keeps_active:
  assumes "\<not> isCriticalError e"
    and "s' = handleBatchError e batch snapshot s"
  shows "active s' = active s
     \<and> pending s' = fold (\<lambda>(k, request). AList.update k request) batch (pending s)
     \<and> completed s' = fold set_add snapshot (completed s)
     \<and> effects s' = effects s @ [TimerSet (min 2000 (pollRate s)), Notified (getState s')]
     \<and> (\<forall>c. settlements c s' = settlements c s)"
  using assms by (simp add: handleBatchError_transient settlements_def)

theorem transient_failure_keeps_active_witness:
  "\<not> isCriticalError timeout_error
   \<and> active (handleBatchError timeout_error (batchToSend demo_round)
               (completedSnapshot demo_round) demo_inflight)
       = [(''C'', demo_request ''C'' 1)]
   \<and> pending (handleBatchError timeout_error (batchToSend demo_round)
               (completedSnapshot demo_round) demo_inflight)
       = [(''A'', demo_request ''A'' 0)]
   \<and> completed (handleBatchError timeout_error (batchToSend demo_round)
               (completedSnapshot demo_round) demo_inflight) = [''D'']
   \<and> settlements 1 (handleBatchError timeout_error (batchToSend demo_round)
               (completedSnapshot demo_round) demo_inflight) = []"
proof -
  have t: "\<not> isCriticalError timeout_error"
    by (simp add: isCriticalError_def timeout_error_def Error_def)
  from transient_failure_keeps_active [OF t refl, of "batchToSend demo_round"
      "completedSnapshot demo_round" demo_inflight] t
  show ?thesis
    by (simp add: demo_round_def demo_inflight_def demo_client_def new_client_def
        set_add_def settlements_def)
qed

subsection \<open>Critical and transient failures\<close>

lemma handleBatchError_critical:
  assumes "isCriticalError e"
  shows "broken (handleBatchError e batch snapshot s)"
    and "pending (handleBatchError e batch snapshot s) = []"
    and "active (handleBatchError e batch snapshot s) = []"
    and "completed (handleBatchError e batch snapshot s) = []"
    and "processing (handleBatchError e batch snapshot s) = False"
    and "pollRate (handleBatchError e batch snapshot s) = pollRate s"
    and "key (handleBatchError e batch snapshot s)
           = (if map_option status (response e) = Some 404 then None else key s)"
    and "error (handleBatchError e batch snapshot s)
           = (if map_option status (response e) = Some 404
              then Some (or_else (data_message (the (response e)))
                           ''Session not found. Create key again.'')
              else Some (getErrorMessage e))"
    and "effects (handleBatchError e batch snapshot s)
           = effects s
             @ map (\<lambda>req. Rejected (cont req) ''Connection reset'')
                 (map snd (fold (\<lambda>(k, request). AList.update k request) batch (pending s))
                  @ map snd (active s))
             @ [Notified (getState (handleBatchError e batch snapshot s)),
                Notified (getState (handleBatchError e batch snapshot s))]"
  using assms
  by (auto simp add: handleBatchError_def Let_def resetState_effects getState_def
      isCriticalError_def)


lemma handleBatchError_posts [simp]:
  "posts_of (effects (handleBatchError e batch snapshot s)) = posts_of (effects s)"
  by (cases "isCriticalError e")
    (simp_all add: handleBatchError_critical handleBatchError_transient o_def)



lemma processBatch_response_posts [simp]:
  "posts_of (effects (processBatch_response decode outcome rnd s)) = posts_of (effects s)"
  by (simp add: processBatch_response_def Let_def split: sum.splits option.splits)


lemma initializeConnection_response_effects [simp]:
  "effects (snd (initializeConnection_response outcome s)) = effects s"
  by (simp add: initializeConnection_response_def initializeConnection_catch_def
      split: sum.splits option.splits)


lemma setKey_resume_posts [simp]:
  "posts_of (effects (snd (setKey_resume outcome s))) = posts_of (effects s)"
  using initializeConnection_response_effects [of outcome s]
  by (cases "initializeConnection_response outcome s")
    (auto simp: setKey_resume_def split: option.splits)

lemma processIfNeeded_call_skips:
  "broken s \<or> processing s \<or> \<not> truthy (key s)
     \<or> (pending s = [] \<and> active s = [] \<and> completed s = [])
   \<Longrightarrow> processIfNeeded_call s = (s, NotStarted)"
  by (auto simp: processIfNeeded_call_def)

lemma executeOrFallback_disconnected:
  "broken s \<or> \<not> truthy (key s)
   \<Longrightarrow> executeOrFallback apiCall rk c now s = (emit [FallbackCalled] s, NotStarted)"
  by (auto simp: executeOrFallback_def)

lemma add_started_client [simp]: "the_client (add_started st sys) = the_client sys"
  by (simp add: add_started_def split: started.splits)





subsection \<open>Setting the key\<close>

lemma dropWhile_all: "\<forall>c \<in> set s. P c \<Longrightarrow> dropWhile P s = []"
  by (induction s) auto

lemma trim_Nil_iff: "trim s = [] \<longleftrightarrow> (\<forall>c \<in> set s. is_space c)"
proof
  assume "trim s = []"
  then have "\<forall>c \<in> set (dropWhile is_space s). is_space c"
    by (simp add: trim_def dropWhile_eq_Nil_conv)
  then have "dropWhile is_space s = []"
    using hd_dropWhile [of is_space s] hd_in_set [of "dropWhile is_space s"] by blast
  then show "\<forall>c \<in> set s. is_space c" by (simp add: dropWhile_eq_Nil_conv)
next
  assume "\<forall>c \<in> set s. is_space c"
  then have "dropWhile is_space s = []" by (rule dropWhile_all)
  then show "trim s = []" by (simp only: trim_def rev.simps dropWhile.simps)
qed

lemma trim_decompose:
  "\<exists>a b. s = a @ trim s @ b \<and> (\<forall>c \<in> set a. is_space c) \<and> (\<forall>c \<in> set b. is_space c)"
proof -
  define u where "u = dropWhile is_space s"
  have 1: "s = takeWhile is_space s @ u" by (simp add: u_def)
  have "rev (takeWhile is_space (rev u) @ dropWhile is_space (rev u)) = u"
    by (simp only: takeWhile_dropWhile_id rev_rev_ident)
  then have "rev (dropWhile is_space (rev u)) @ rev (takeWhile is_space (rev u)) = u"
    by (simp only: rev_append)
  then have 2: "u = trim s @ rev (takeWhile is_space (rev u))"
    by (simp only: trim_def u_def)
  have 3: "\<forall>c \<in> set (takeWhile is_space s). is_space c"
    by (auto dest: set_takeWhileD)
  have 4: "\<forall>c \<in> set (rev (takeWhile is_space (rev u))). is_space c"
    by (auto dest: set_takeWhileD)
  from 1 2 have "s = takeWhile is_space s @ trim s @ rev (takeWhile is_space (rev u))"
    by simp
  with 3 4 show ?thesis by blast
qed

lemma trim_ends: "trim s \<noteq> [] \<Longrightarrow> \<not> is_space (hd (trim s)) \<and> \<not> is_space (last (trim s))"
proof -
  assume ne: "trim s \<noteq> []"
  define u where "u = dropWhile is_space s"
  define w where "w = dropWhile is_space (rev u)"
  from ne have w: "w \<noteq> []" by (simp add: trim_def u_def w_def)
  then have "\<not> is_space (hd w)" unfolding w_def by (rule hd_dropWhile)
  with w have l: "\<not> is_space (last (trim s))"
    by (simp add: trim_def u_def w_def last_rev)
  from w have u: "u \<noteq> []" by (auto simp: w_def)
  then have hu: "\<not> is_space (hd u)" unfolding u_def by (rule hd_dropWhile)
  have "rev (takeWhile is_space (rev u) @ w) = u"
    by (simp only: w_def takeWhile_dropWhile_id rev_rev_ident)
  then have "rev w @ rev (takeWhile is_space (rev u)) = u"
    by (simp only: rev_append)
  with w have "hd u = hd (rev w)"
    by (metis hd_append2 rev_is_Nil_conv)
  with hu have "\<not> is_space (hd (trim s))" by (simp add: trim_def u_def w_def)
  with l show ?thesis by simp
qed

lemma normalize_key_simps:
  "normalize_key None = None"
  "normalize_key (Some s) = (if trim s = [] then None else Some (trim s))"
  by (cases "s = []"; simp add: normalize_key_def or_else_def trim_def Let_def)+

lemma normalize_key_None_iff:
  "normalize_key k = None \<longleftrightarrow> (k = None \<or> (\<forall>c \<in> set (the k). is_space c))"
proof (cases k)
  case None
  then show ?thesis by (simp add: normalize_key_simps)
next
  case (Some s)
  then show ?thesis by (simp add: normalize_key_simps trim_Nil_iff)
qed

lemma normalize_key_Some:
  assumes "normalize_key k = Some t"
  shows "\<exists>a b. k = Some (a @ t @ b) \<and> (\<forall>c \<in> set a. is_space c) \<and> (\<forall>c \<in> set b. is_space c)
           \<and> t \<noteq> [] \<and> \<not> is_space (hd t) \<and> \<not> is_space (last t)"
proof (cases k)
  case None
  with assms show ?thesis by (simp add: normalize_key_simps)
next
  case (Some s)
  with assms have t: "t = trim s" "t \<noteq> []"
    by (auto simp: normalize_key_simps split: if_splits)
  from trim_decompose [of s] trim_ends [of s] t Some show ?thesis by auto
qed

lemma normalize_key_truthy: "truthy (normalize_key k) \<longleftrightarrow> normalize_key k \<noteq> None"
  by (cases k) (simp_all add: normalize_key_simps)

lemma setKey_call_fields:
  "key (fst (setKey_call k s)) = normalize_key k"
  "\<not> broken (fst (setKey_call k s))"
  "error (fst (setKey_call k s)) = None"
  "pending (fst (setKey_call k s)) = []"
  "active (fst (setKey_call k s)) = []"
  "completed (fst (setKey_call k s)) = []"
  "processing (fst (setKey_call k s)) = False"
  "pollRate (fst (setKey_call k s)) = pollRate s"
  "snd (setKey_call k s) \<longleftrightarrow> normalize_key k \<noteq> None"
  by (simp_all add: setKey_call_def Let_def initializeConnection_request_def
      normalize_key_truthy)

lemma setKey_call_effects:
  "effects (fst (setKey_call k s))
     = effects s
       @ map (\<lambda>req. Rejected (cont req) ''Connection reset'')
           (map snd (pending s) @ map snd (active s))
       @ [Notified (getState (s\<lparr>broken := False, error := None, pending := [], active := [],
                                completed := [], processing := False\<rparr>))]
       @ (case normalize_key k of
            None \<Rightarrow> [Notified (getState (fst (setKey_call k s)))]
          | Some t \<Rightarrow> [Posted (InitPayload t) 5000])"
proof (cases "normalize_key k")
  case None
  then show ?thesis
    by (simp add: setKey_call_def Let_def resetState_effects getState_def)
next
  case (Some t)
  then have "truthy (normalize_key k)" using normalize_key_truthy [of k] by simp
  with Some show ?thesis
    by (simp add: setKey_call_def Let_def initializeConnection_request_def resetState_effects
        getState_def)
qed

text \<open>
  What \<open>setKey\<close> does to the client it finds. It stores the trimmed key (white space
  being what \<open>String.prototype.trim\<close> strips), and \<open>null\<close> when the argument is \<open>null\<close>,
  empty or white space only. Whatever the argument, before it waits for anything it
  clears \<open>broken\<close> and the last error, rejects every request of the pending map and of
  the active map with \<open>Connection reset\<close> and empties the queues. Only then, and only when
  the stored key is not \<open>null\<close>, it posts one initialisation request; the part of \<open>setKey\<close>
  that runs after the response posts nothing. The requests that a round in flight holds
  in its snapshot are in neither map: they are the subject of the last section.
\<close>

theorem setKey_contract:
  assumes "s' = fst (setKey_call k s)" and "awaiting = snd (setKey_call k s)"
  shows "key s' = normalize_key k
    \<and> (normalize_key k = None \<longleftrightarrow> (k = None \<or> (\<forall>c \<in> set (the k). is_space c)))
    \<and> (\<forall>t. normalize_key k = Some t \<longrightarrow>
          (\<exists>a b. k = Some (a @ t @ b) \<and> (\<forall>c \<in> set a. is_space c) \<and> (\<forall>c \<in> set b. is_space c)
                 \<and> t \<noteq> [] \<and> \<not> is_space (hd t) \<and> \<not> is_space (last t)))
    \<and> \<not> broken s' \<and> error s' = None
    \<and> pending s' = [] \<and> active s' = [] \<and> completed s' = []
    \<and> effects s' = effects s
         @ map (\<lambda>req. Rejected (cont req) ''Connection reset'')
             (map snd (pending s) @ map snd (active s))
         @ [Notified (getState (s\<lparr>broken := False, error := None, pending := [], active := [],
                                  completed := [], processing := False\<rparr>))]
         @ (case normalize_key k of
              None \<Rightarrow> [Notified (getState s')]
            | Some t \<Rightarrow> [Posted (InitPayload t) 5000])
    \<and> (awaiting \<longleftrightarrow> normalize_key k \<noteq> None)
    \<and> posts_of (effects (snd (setKey_resume outcome s'))) = posts_of (effects s')"
  unfolding assms
  using normalize_key_None_iff [of k] normalize_key_Some [of k] setKey_call_effects [of k s]
  by (simp add: setKey_call_fields)

theorem setKey_contract_witness:
  "key (fst (setKey_call (Some (utf16 ''  abc '')) demo_client)) = Some (utf16 ''abc'')
   \<and> effects (fst (setKey_call (Some (utf16 ''  abc '')) demo_client))
       = [Rejected 0 ''Connection reset'', Rejected 1 ''Connection reset'',
          Notified \<lparr>st_connected = True, st_processing = False, st_error = None,
                    st_pollRate = 500, st_pending = 0, st_active = 0, st_completed = 0\<rparr>,
          Posted (InitPayload (utf16 ''abc'')) 5000]
   \<and> snd (setKey_call (Some (utf16 ''  abc '')) demo_client)
   \<and> key (fst (setKey_call (Some (utf16 ''   '')) demo_client)) = None
   \<and> posts_of (effects (fst (setKey_call (Some (utf16 ''   '')) demo_client))) = []
   \<and> \<not> snd (setKey_call (Some (utf16 ''   '')) demo_client)
   \<and> key (fst (setKey_call None demo_client)) = None
   \<and> key (fst (setKey_call (Some [0x00A0, 0x0061, 0x2028, 0xFEFF]) demo_client)) = Some [0x0061]
   \<and> key (fst (setKey_call (Some [0x00A0, 0x3000]) demo_client)) = None"
proof -
  have n: "normalize_key (Some (utf16 ''  abc '')) = Some (utf16 ''abc'')" "normalize_key (Some (utf16 ''   '')) = None"
    "normalize_key None = None"
    "normalize_key (Some [0x00A0, 0x0061, 0x2028, 0xFEFF]) = Some [0x0061]"
    "normalize_key (Some [0x00A0, 0x3000]) = None"
    by (simp_all add: normalize_key_simps trim_def utf16_def is_space_def)
  have d: "effects demo_client = []" "pending demo_client = [(''A'', demo_request ''A'' 0)]"
    "active demo_client = [(''C'', demo_request ''C'' 1)]"
    "getState (demo_client\<lparr>broken := False, error := None, pending := [], active := [],
                          completed := [], processing := False\<rparr>)
      = \<lparr>st_connected = True, st_processing = False, st_error = None,
                    st_pollRate = 500, st_pending = 0, st_active = 0, st_completed = 0\<rparr>"
    by (simp_all add: demo_client_def new_client_def getState_def)
  from setKey_contract [OF refl refl, of "Some (utf16 ''  abc '')" demo_client] n d
  have a: "key (fst (setKey_call (Some (utf16 ''  abc '')) demo_client)) = Some (utf16 ''abc'')
   \<and> effects (fst (setKey_call (Some (utf16 ''  abc '')) demo_client))
       = [Rejected 0 ''Connection reset'', Rejected 1 ''Connection reset'',
          Notified \<lparr>st_connected = True, st_processing = False, st_error = None,
                    st_pollRate = 500, st_pending = 0, st_active = 0, st_completed = 0\<rparr>,
          Posted (InitPayload (utf16 ''abc'')) 5000]
   \<and> snd (setKey_call (Some (utf16 ''  abc '')) demo_client)"
    by (simp add: demo_request_def)
  from setKey_contract [OF refl refl, of "Some (utf16 ''   '')" demo_client] n d
  have b: "key (fst (setKey_call (Some (utf16 ''   '')) demo_client)) = None
   \<and> posts_of (effects (fst (setKey_call (Some (utf16 ''   '')) demo_client))) = []
   \<and> \<not> snd (setKey_call (Some (utf16 ''   '')) demo_client)"
    by (simp add: demo_request_def)
  from setKey_contract [OF refl refl, of None demo_client] n
  have c: "key (fst (setKey_call None demo_client)) = None"
    by simp
  from setKey_contract [OF refl refl, of "Some [0x00A0, 0x0061, 0x2028, 0xFEFF]" demo_client] n
  have d: "key (fst (setKey_call (Some [0x00A0, 0x0061, 0x2028, 0xFEFF]) demo_client))
      = Some [0x0061]"
    by simp
  from setKey_contract [OF refl refl, of "Some [0x00A0, 0x3000]" demo_client] n
  have e: "key (fst (setKey_call (Some [0x00A0, 0x3000]) demo_client)) = None"
    by simp
  from a b c d e show ?thesis by blast
qed

subsection \<open>The poll rate\<close>

lemma clamp_rate_bounds: "500 \<le> clamp_rate x \<and> clamp_rate x \<le> 10000"
  by (simp add: clamp_rate_def)

lemma processIfNeeded_call_pollRate [simp]:
  "pollRate (fst (processIfNeeded_call s)) = pollRate s"
  by (simp add: processIfNeeded_call_def processBatch_request_def Let_def)

lemma executeOrFallback_pollRate [simp]:
  "pollRate (fst (executeOrFallback apiCall rk c now s)) = pollRate s"
  by (simp add: executeOrFallback_def Let_def)

lemma handleBatchError_pollRate [simp]:
  "pollRate (handleBatchError e batch snapshot s) = pollRate s"
  by (cases "isCriticalError e") (simp_all add: handleBatchError_critical handleBatchError_transient)

lemma processBatch_response_rate_ok:
  "rate_ok s \<Longrightarrow> rate_ok (processBatch_response decode outcome rnd s)"
  by (simp add: rate_ok_def processBatch_response_def Let_def handleBatchResponse_pollRate
      clamp_rate_bounds split: sum.splits option.splits)

lemma initializeConnection_response_pollRate:
  "pollRate (snd (initializeConnection_response outcome s)) =
     (case outcome of
        Inr body \<Rightarrow>
          (case validateInitResponse body of
             Inr (Some d) \<Rightarrow>
               (case intervalMs d of
                  Some x \<Rightarrow> if x > 0 then clamp_rate x else pollRate s
                | None \<Rightarrow> pollRate s)
           | _ \<Rightarrow> pollRate s)
      | Inl e \<Rightarrow> pollRate s)"
  by (simp add: initializeConnection_response_def initializeConnection_catch_def
      split: sum.splits option.splits)

lemma setKey_resume_pollRate:
  "pollRate (snd (setKey_resume outcome s)) = pollRate (snd (initializeConnection_response outcome s))"
  by (cases "initializeConnection_response outcome s")
    (auto simp: setKey_resume_def split: option.splits)

lemma setKey_resume_rate_ok: "rate_ok s \<Longrightarrow> rate_ok (snd (setKey_resume outcome s))"
  by (simp add: rate_ok_def setKey_resume_pollRate initializeConnection_response_pollRate
      clamp_rate_bounds split: sum.splits option.splits)

lemma the_client_step:
  "the_client (step decode (Call_executeOrFallback apiCall now rnd t) sys)
     = fst (executeOrFallback apiCall (generateRequestKey now rnd) (promises sys) t
              (the_client sys))"
  "the_client (step decode (Call_setKey k) sys) = fst (setKey_call k (the_client sys))"
  "the_client (step decode (Init_settles outcome) sys)
     = (if inits sys = 0 then the_client sys else snd (setKey_resume outcome (the_client sys)))"
  "the_client (step decode (Round_settles i outcome) sys)
     = (if i < length (rounds sys)
        then processBatch_response decode outcome (rounds sys ! i) (the_client sys)
        else the_client sys)"
  "the_client (step decode Finally_runs sys)
     = (if returned sys = 0 then the_client sys else processIfNeeded_finally (the_client sys))"
  "the_client (step decode Timer_fires sys)
     = (if fired sys < length (timers_of (effects (the_client sys)))
        then fst (processIfNeeded_call (the_client sys)) else the_client sys)"
  by (simp_all split: prod.splits)

lemma step_rate_ok: "rate_ok (the_client sys) \<Longrightarrow> rate_ok (the_client (step decode ev sys))"
  by (cases ev)
    (simp_all add: the_client_step setKey_resume_rate_ok processBatch_response_rate_ok
      del: step.simps, simp_all add: rate_ok_def setKey_call_fields)

lemma run_rate_ok: "rate_ok (the_client sys) \<Longrightarrow> rate_ok (the_client (run decode evs sys))"
  by (induction evs arbitrary: sys) (simp_all add: run_def step_rate_ok del: step.simps)

lemma new_system_rate_ok: "rate_ok (the_client new_system)"
  by (simp add: rate_ok_def new_system_def new_client_def)

text \<open>
  C7, as the code has it. In every state the client can reach, \<open>pollRate\<close> lies within
  [500, 10000]. An \<open>intervalMs\<close> of a batch response is always adopted, clamped to that
  range. An \<open>intervalMs\<close> of an initialisation response is adopted, clamped, only when it
  is positive; zero or a negative value leaves \<open>pollRate\<close> as it was.
\<close>

theorem pollRate_within_bounds:
  "500 \<le> pollRate (the_client (run decode evs new_system))
   \<and> pollRate (the_client (run decode evs new_system)) \<le> 10000
   \<and> (intervalMs d = Some x \<longrightarrow>
        pollRate (handleBatchResponse decode d batch s) = max 500 (min 10000 x))
   \<and> (validateInitResponse body = Inr (Some d) \<and> intervalMs d = Some x \<longrightarrow>
        pollRate (snd (setKey_resume (Inr body) s))
          = (if x > 0 then max 500 (min 10000 x) else pollRate s))"
  using run_rate_ok [OF new_system_rate_ok, of decode evs]
  by (simp add: rate_ok_def handleBatchResponse_pollRate setKey_resume_pollRate
      initializeConnection_response_pollRate clamp_rate_def)

theorem pollRate_within_bounds_witness:
  "pollRate (handleBatchResponse demo_decode (data_with (Some 0) None None) [] demo_client) = 500
   \<and> pollRate (handleBatchResponse demo_decode (data_with (Some (- 5)) None None) [] demo_client)
       = 500
   \<and> pollRate (handleBatchResponse demo_decode (data_with (Some 50000) None None) []
        demo_client) = 10000
   \<and> pollRate (snd (setKey_resume (Inr (DirectData (data_with (Some 50000) None None)))
        demo_client)) = 10000
   \<and> pollRate (snd (setKey_resume (Inr (DirectData (data_with (Some 0) None None)))
        (demo_client\<lparr>pollRate := 1000\<rparr>))) = 1000"
proof -
  have v: "validateInitResponse (DirectData d) = Inr (Some d)" for d
    by (simp add: validateInitResponse_def)
  have i: "intervalMs (data_with (Some x) None None) = Some x" for x
    by (simp add: data_with_def)
  note b = pollRate_within_bounds [where decode = demo_decode and evs = "[]"
      and batch = "[]" and s = demo_client, THEN conjunct2, THEN conjunct2, THEN conjunct1,
      rule_format, OF i]
  note n = pollRate_within_bounds [where decode = demo_decode and evs = "[]",
      THEN conjunct2, THEN conjunct2, THEN conjunct2, rule_format, OF conjI, OF v i]
  from b [of 0] b [of "- 5"] b [of 50000] n [of 50000 demo_client]
    n [of 0 "demo_client\<lparr>pollRate := 1000\<rparr>"]
  show ?thesis by simp
qed

text \<open>
  The claim as stated fails for an initialisation response: after a first response has
  set the rate to 1000, a second initialisation response with \<open>intervalMs = 0\<close> leaves
  it at 1000 instead of clamping it to 500.
\<close>

theorem init_zero_interval_counterexample:
  "pollRate (the_client (run demo_decode
      [Call_setKey (Some (utf16 ''abc'')),
       Init_settles (Inr (DirectData (data_with (Some 1000) None None))),
       Call_setKey (Some (utf16 ''abc'')),
       Init_settles (Inr (DirectData (data_with (Some 0) None None)))]
      new_system)) = 1000"
  by (simp add: run_def new_system_def eval_defs run_defs)

subsection \<open>The two notions of being connected\<close>

lemma processIfNeeded_call_key [simp]: "key (fst (processIfNeeded_call s)) = key s"
  by (simp add: processIfNeeded_call_def processBatch_request_def Let_def)

lemma executeOrFallback_key [simp]:
  "key (fst (executeOrFallback apiCall rk c now s)) = key s"
  by (simp add: executeOrFallback_def Let_def)

lemma processBatch_response_key_ok:
  "key_ok s \<Longrightarrow> key_ok (processBatch_response decode outcome rnd s)"
  by (simp add: key_ok_def processBatch_response_def Let_def handleBatchError_def
      split: sum.splits option.splits)

lemma setKey_resume_key_ok: "key_ok s \<Longrightarrow> key_ok (snd (setKey_resume outcome s))"
  by (cases "initializeConnection_response outcome s")
    (auto simp: key_ok_def setKey_resume_def initializeConnection_response_def
      initializeConnection_catch_def split: option.splits sum.splits if_splits)

lemma setKey_call_key_ok: "key_ok (fst (setKey_call k s))"
  using normalize_key_truthy [of k]
  by (cases "normalize_key k") (auto simp: key_ok_def setKey_call_fields)

lemma step_key_ok: "key_ok (the_client sys) \<Longrightarrow> key_ok (the_client (step decode ev sys))"
  by (cases ev)
    (simp_all add: the_client_step setKey_resume_key_ok processBatch_response_key_ok
      setKey_call_key_ok del: step.simps, simp_all add: key_ok_def)

lemma run_key_ok: "key_ok (the_client sys) \<Longrightarrow> key_ok (the_client (run decode evs sys))"
  by (induction evs arbitrary: sys) (simp_all add: run_def step_key_ok del: step.simps)

lemma new_system_key_ok: "key_ok (the_client new_system)"
  by (simp add: key_ok_def new_system_def new_client_def)

text \<open>
  C9, as the code has it. In every state the client can reach, the getter \<open>isConnected\<close>
  is true exactly when \<open>broken\<close> is false, the key is not \<open>null\<close> and the last error is
  \<open>null\<close> or the empty string (the getter tests \<open>!this.state.error\<close>), while \<open>connected\<close>
  of \<open>getState()\<close> asks for the first two only. So whenever a non-empty last error is
  recorded while the key is set and the connection is not broken, \<open>isConnected\<close> is false
  and \<open>getState().connected\<close> is true.
\<close>

theorem isConnected_versus_connected:
  assumes "s = the_client (run decode evs new_system)"
  shows "(isConnected s \<longleftrightarrow> \<not> broken s \<and> key s \<noteq> None \<and> (error s = None \<or> error s = Some []))
    \<and> (st_connected (getState s) \<longleftrightarrow> \<not> broken s \<and> key s \<noteq> None)
    \<and> (\<not> broken s \<and> key s \<noteq> None \<and> error s \<noteq> None \<and> error s \<noteq> Some []
         \<longrightarrow> \<not> isConnected s \<and> st_connected (getState s))"
proof -
  from run_key_ok [OF new_system_key_ok, of decode evs] assms
  have k: "key s \<noteq> Some []" by (simp add: key_ok_def)
  then have t: "truthy (key s) \<longleftrightarrow> key s \<noteq> None" by (cases "key s") auto
  have e: "truthy (error s) \<longleftrightarrow> error s \<noteq> None \<and> error s \<noteq> Some []"
    by (cases "error s") auto
  from t e show ?thesis by (auto simp: isConnected_def getState_def)
qed

text \<open>
  After a round that failed with a timeout the key is still set: \<open>isConnected\<close> is false,
  \<open>getState().connected\<close> is true.
\<close>

theorem isConnected_versus_connected_witness:
  "\<not> isConnected (the_client (run demo_decode (demo_failed_round timeout_error) new_system))
   \<and> st_connected (getState
        (the_client (run demo_decode (demo_failed_round timeout_error) new_system)))
   \<and> error (the_client (run demo_decode (demo_failed_round timeout_error) new_system))
       = Some ''timeout of 1000ms exceeded''"
proof -
  have f: "\<not> broken (the_client (run demo_decode (demo_failed_round timeout_error) new_system))"
    "key (the_client (run demo_decode (demo_failed_round timeout_error) new_system)) = Some (utf16 ''abc'')"
    "error (the_client (run demo_decode (demo_failed_round timeout_error) new_system))
       = Some ''timeout of 1000ms exceeded''"
    by (simp_all add: demo_failed_round_def run_def new_system_def eval_defs run_defs)
  from isConnected_versus_connected [OF refl, of demo_decode "demo_failed_round timeout_error"] f
  show ?thesis by simp
qed

text \<open>
  The claim as stated fails when the recorded error is the empty string: a round whose
  post rejects with an \<open>Error\<close> of empty message leaves a last error that is not \<open>null\<close>,
  and \<open>isConnected\<close> is still true.
\<close>

theorem empty_error_counterexample:
  "isConnected (the_client (run demo_decode (demo_failed_round (Error [])) new_system))
   \<and> getLastError (the_client (run demo_decode (demo_failed_round (Error [])) new_system))
       = Some []"
  by (simp add: demo_failed_round_def run_def new_system_def isConnected_def getLastError_def
      eval_defs run_defs)

subsection \<open>Keys stay unique inside each queue\<close>

lemma distinct_set_add: "distinct xs \<Longrightarrow> distinct (set_add x xs)"
  by (simp add: set_add_def)

lemma handle_result_queues_ok: "queues_ok s \<Longrightarrow> queues_ok (handle_result decode r s)"
  by (auto simp: queues_ok_def handle_result_def resolve_def reject_def Let_def
      AList.distinct_delete distinct_set_add split: option.splits)

lemma handle_created_queues_ok: "queues_ok s \<Longrightarrow> queues_ok (handle_created batch c s)"
  by (auto simp: queues_ok_def handle_created_def reject_def AList.distinct_update
      split: option.splits)

lemma fold_handle_result_queues_ok:
  "queues_ok s \<Longrightarrow> queues_ok (fold (handle_result decode) rs s)"
  by (induction rs arbitrary: s) (simp_all add: handle_result_queues_ok)

lemma fold_handle_created_queues_ok:
  "queues_ok s \<Longrightarrow> queues_ok (fold (handle_created batch) cs s)"
  by (induction cs arbitrary: s) (simp_all add: handle_created_queues_ok)

lemma queues_ok_cong:
  "pending s' = pending s \<Longrightarrow> active s' = active s \<Longrightarrow> completed s' = completed s
   \<Longrightarrow> queues_ok s' = queues_ok s"
  by (simp add: queues_ok_def)

lemma handleBatchResponse_queues_ok:
  "queues_ok s \<Longrightarrow> queues_ok (handleBatchResponse decode d batch s)"
proof -
  assume ok: "queues_ok s"
  define s1 where "s1 = (case intervalMs d of Some x \<Rightarrow> s\<lparr>pollRate := clamp_rate x\<rparr> | None \<Rightarrow> s)"
  define s2 where "s2 = (case results d of
                  Some rs \<Rightarrow> if length rs > 0 then fold (handle_result decode) rs s1 else s1
                | None \<Rightarrow> s1)"
  define s3 where "s3 = (case created d of
                  Some cs \<Rightarrow> if length cs > 0 then fold (handle_created batch) cs s2 else s2
                | None \<Rightarrow> s2)"
  from ok have 1: "queues_ok s1" by (simp add: s1_def queues_ok_def split: option.splits)
  then have 2: "queues_ok s2"
    by (simp add: s2_def fold_handle_result_queues_ok split: option.splits)
  then have 3: "queues_ok s3"
    by (simp add: s3_def fold_handle_created_queues_ok split: option.splits)
  have "handleBatchResponse decode d batch s = notifyStateChange s3"
    by (simp only: handleBatchResponse_def s1_def s2_def s3_def Let_def)
  with 3 show ?thesis by (simp add: queues_ok_def)
qed

lemma handleBatchError_queues_ok:
  "queues_ok s \<Longrightarrow> queues_ok (handleBatchError e batch snapshot s)"
  by (cases "isCriticalError e")
    (simp_all add: queues_ok_def handleBatchError_critical handleBatchError_transient
      restore_distinct distinct_fold_set_add)

lemma processBatch_response_queues_ok:
  "queues_ok s \<Longrightarrow> queues_ok (processBatch_response decode outcome rnd s)"
  by (auto simp: processBatch_response_def Let_def handleBatchError_queues_ok
      handleBatchResponse_queues_ok queues_ok_cong [of "emit es s'" s' for es s']
      split: sum.splits option.splits)

lemma processIfNeeded_call_queues_ok: "queues_ok s \<Longrightarrow> queues_ok (fst (processIfNeeded_call s))"
  by (simp add: queues_ok_def processIfNeeded_call_def processBatch_request_def Let_def)

lemma executeOrFallback_queues_ok:
  "queues_ok s \<Longrightarrow> queues_ok (fst (executeOrFallback apiCall rk c now s))"
proof -
  assume ok: "queues_ok s"
  then have "queues_ok (notifyStateChange
      (s\<lparr>pending := AList.update rk
          \<lparr>requestKey = rk, call = apiCall, cont = c, timestamp = now\<rparr> (pending s)\<rparr>))"
    by (simp add: queues_ok_def AList.distinct_update)
  from processIfNeeded_call_queues_ok [OF this] ok show ?thesis
    by (simp add: executeOrFallback_def Let_def queues_ok_def)
qed

lemma setKey_resume_queues [simp]:
  "pending (snd (setKey_resume outcome s)) = pending s"
  "active (snd (setKey_resume outcome s)) = active s"
  "completed (snd (setKey_resume outcome s)) = completed s"
  by (cases "initializeConnection_response outcome s";
      auto simp: setKey_resume_def initializeConnection_response_def
        initializeConnection_catch_def split: option.splits sum.splits if_splits)+

lemma step_queues_ok:
  "queues_ok (the_client sys) \<Longrightarrow> queues_ok (the_client (step decode ev sys))"
  by (cases ev)
    (simp_all add: the_client_step processBatch_response_queues_ok
      processIfNeeded_call_queues_ok executeOrFallback_queues_ok del: step.simps,
     simp_all add: queues_ok_def setKey_call_fields)

lemma run_queues_ok:
  "queues_ok (the_client sys) \<Longrightarrow> queues_ok (the_client (run decode evs sys))"
  by (induction evs arbitrary: sys) (simp_all add: run_def step_queues_ok del: step.simps)

lemma new_system_queues_ok: "queues_ok (the_client new_system)"
  by (simp add: queues_ok_def new_system_def new_client_def)

subsection \<open>A failed round loses no request\<close>

lemma failure_of_response:
  "failure_of outcome = Some e
   \<Longrightarrow> processBatch_response decode outcome rnd s
         = handleBatchError e (batchToSend rnd) (completedSnapshot rnd) s"
  by (auto simp: failure_of_def processBatch_response_def split: sum.splits option.splits)

lemma failure_of_response_second:
  "failure_of outcome = Some e
   \<Longrightarrow> processBatch_response_second decode outcome rnd s
         = handleBatchError e (batchToSend rnd) (completedSnapshot rnd) s"
  by (auto simp: failure_of_def processBatch_response_second_def split: sum.splits option.splits)

lemma processIfNeeded_call_InFlight:
  assumes "processIfNeeded_call s = (s1, InFlight rnd)"
  shows "rnd = \<lparr>batchToSend = pending s, completedSnapshot = completed s\<rparr>"
    and "pending s1 = []" and "completed s1 = []" and "active s1 = active s"
    and "processing s1"
  using assms
  by (auto simp: processIfNeeded_call_def processBatch_request_def Let_def split: if_splits)

lemma setKey_resume_processing [simp]:
  "processing (snd (setKey_resume outcome s)) = processing s"
  by (cases "initializeConnection_response outcome s";
      auto simp: setKey_resume_def initializeConnection_response_def
        initializeConnection_catch_def split: option.splits sum.splits if_splits)

lemma add_started_InFlight:
  assumes "rounds (add_started st sys0) = [rnd]" and "rounds sys0 = []"
  shows "st = InFlight rnd" and "returned (add_started st sys0) = returned sys0"
  using assms by (cases st; simp add: add_started_def)+

lemma round_start:
  assumes "rounds sys = []" and "rounds (step decode start sys) = [rnd]"
  shows "completedSnapshot rnd = completed (the_client sys)
    \<and> pending (the_client (step decode start sys)) = []
    \<and> completed (the_client (step decode start sys)) = []
    \<and> active (the_client (step decode start sys)) = active (the_client sys)
    \<and> processing (the_client (step decode start sys))
    \<and> returned (step decode start sys) = returned sys
    \<and> (start = Timer_fires \<longrightarrow> batchToSend rnd = pending (the_client sys))
    \<and> (\<forall>a n r t. start = Call_executeOrFallback a n r t \<longrightarrow>
           batchToSend rnd = AList.update (generateRequestKey n r)
             \<lparr>requestKey = generateRequestKey n r, call = a, cont = promises sys,
              timestamp = t\<rparr> (pending (the_client sys)))
    \<and> (distinct (map fst (pending (the_client sys))) \<longrightarrow> distinct (map fst (batchToSend rnd)))"
proof (cases start)
  case (Call_executeOrFallback a n r t)
  define rk where "rk = generateRequestKey n r"
  define c where "c = the_client sys"
  define s0 where "s0 = notifyStateChange (c\<lparr>pending := AList.update rk
      \<lparr>requestKey = rk, call = a, cont = promises sys, timestamp = t\<rparr> (pending c)\<rparr>)"
  obtain s1 st where e: "executeOrFallback a rk (promises sys) t c = (s1, st)"
    by (cases "executeOrFallback a rk (promises sys) t c")
  with assms Call_executeOrFallback
  have r: "rounds (add_started st (sys\<lparr>the_client := s1, promises := promises sys + 1\<rparr>)) = [rnd]"
    and st: "step decode start sys
               = add_started st (sys\<lparr>the_client := s1, promises := promises sys + 1\<rparr>)"
    by (simp_all add: rk_def c_def)
  from add_started_InFlight [OF r] assms(1)
  have i: "st = InFlight rnd"
    and ret: "returned (step decode start sys) = returned sys"
    by (simp_all add: st)
  from e i have conn: "\<not> (broken c \<or> \<not> truthy (key c))"
    by (auto simp: executeOrFallback_def split: if_splits)
  with e i have p: "processIfNeeded_call s0 = (s1, InFlight rnd)"
    by (simp add: executeOrFallback_def Let_def s0_def)
  from processIfNeeded_call_InFlight [OF p] st ret Call_executeOrFallback
  show ?thesis
    by (simp add: s0_def rk_def c_def AList.distinct_update)
next
  case (Call_setKey k)
  with assms show ?thesis by (simp split: prod.splits)
next
  case (Init_settles outcome)
  with assms show ?thesis by (simp split: if_splits)
next
  case (Round_settles i outcome)
  with assms show ?thesis by simp
next
  case Finally_runs
  with assms show ?thesis by (simp split: if_splits)
next
  case Timer_fires
  define c where "c = the_client sys"
  obtain s1 st where e: "processIfNeeded_call c = (s1, st)"
    by (cases "processIfNeeded_call c")
  from assms Timer_fires have en: "fired sys < length (timers_of (effects (the_client sys)))"
    by (auto split: if_splits)
  with e assms Timer_fires
  have r: "rounds (add_started st (sys\<lparr>the_client := s1, fired := fired sys + 1\<rparr>)) = [rnd]"
    and st: "step decode start sys
               = add_started st (sys\<lparr>the_client := s1, fired := fired sys + 1\<rparr>)"
    by (simp_all add: c_def)
  from add_started_InFlight [OF r] assms(1)
  have i: "st = InFlight rnd"
    and ret: "returned (step decode start sys) = returned sys"
    by (simp_all add: st)
  from processIfNeeded_call_InFlight [OF e [unfolded i]] st ret Timer_fires
  show ?thesis
    by (simp add: c_def)
qed

lemma during_step:
  assumes "rounds sys = [rnd]" and "returned sys = 0" and "processing (the_client sys)"
    and "\<not> is_setKey ev" and "\<not> ends_round 0 ev"
  shows "rounds (step decode ev sys) = [rnd] \<and> returned (step decode ev sys) = 0
    \<and> processing (the_client (step decode ev sys))
    \<and> active (the_client (step decode ev sys)) = active (the_client sys)
    \<and> completed (the_client (step decode ev sys)) = completed (the_client sys)
    \<and> pending (the_client (step decode ev sys))
        = fold (\<lambda>(k, request). AList.update k request) (enqueued decode [ev] sys)
            (pending (the_client sys))"
proof (cases ev)
  case (Call_executeOrFallback a n r t)
  show ?thesis
  proof (cases "broken (the_client sys) \<or> \<not> truthy (key (the_client sys))")
    case True
    with assms Call_executeOrFallback show ?thesis
      by (simp add: executeOrFallback_disconnected add_started_def)
  next
    case False
    with assms Call_executeOrFallback show ?thesis
      by (simp add: executeOrFallback_def Let_def processIfNeeded_call_skips add_started_def)
  qed
next
  case (Call_setKey k)
  with assms show ?thesis by simp
next
  case (Init_settles outcome)
  with assms show ?thesis by simp
next
  case (Round_settles i outcome)
  with assms show ?thesis by simp
next
  case Finally_runs
  with assms show ?thesis by simp
next
  case Timer_fires
  with assms show ?thesis
    by (simp add: processIfNeeded_call_skips add_started_def)
qed

lemma during_run:
  assumes "rounds sys = [rnd]" and "returned sys = 0" and "processing (the_client sys)"
    and "\<forall>ev \<in> set evs. \<not> is_setKey ev \<and> \<not> ends_round 0 ev"
  shows "rounds (run decode evs sys) = [rnd]
    \<and> active (the_client (run decode evs sys)) = active (the_client sys)
    \<and> completed (the_client (run decode evs sys)) = completed (the_client sys)
    \<and> pending (the_client (run decode evs sys))
        = fold (\<lambda>(k, request). AList.update k request) (enqueued decode evs sys)
            (pending (the_client sys))"
  using assms
proof (induction evs arbitrary: sys)
  case Nil
  then show ?case by (simp add: run_def)
next
  case (Cons ev evs)
  from Cons.prems have ev: "\<not> is_setKey ev" "\<not> ends_round 0 ev"
    and rest: "\<forall>ev \<in> set evs. \<not> is_setKey ev \<and> \<not> ends_round 0 ev"
    by simp_all
  note d = during_step [OF Cons.prems(1-3) ev, of decode]
  from d have 1: "rounds (step decode ev sys) = [rnd]" "returned (step decode ev sys) = 0"
    "processing (the_client (step decode ev sys))" by simp_all
  have r: "run decode (ev # evs) sys = run decode evs (step decode ev sys)"
    by (simp add: run_def)
  have e: "enqueued decode (ev # evs) sys
             = enqueued decode [ev] sys @ enqueued decode evs (step decode ev sys)"
    by simp
  from Cons.IH [OF 1 rest] d show ?case
    by (simp only: r e fold_append o_apply) 
qed

text \<open>
  C4, as the code has it. Take a round that starts in a reachable state while no other
  round is in flight or waiting for the \<open>finally\<close> of its \<open>processIfNeeded\<close>, during which
  \<open>setKey\<close> is not called and the requests put into the pending map have request keys
  that differ from each other and from the keys of the round's snapshot, and which fails
  with a transient error (neither 404 nor 500). After failure handling the pending map
  holds the entries enqueued during the round followed by every entry of the snapshot,
  the completed set holds the snapshot's keys again, the active map is as it was before
  the round, and \<open>pending.size + active.size\<close> is its value immediately before the round
  began (the size of the snapshot plus the size of the active map) plus the number of
  requests enqueued during the round. A failed round is handled by the same
  \<open>handleBatchError\<close> in both copies of the class.
\<close>

theorem failed_round_conserves:
  assumes "sys = run decode evs0 new_system"
    and "rounds sys = []" and "returned sys = 0"
    and "rounds (step decode start sys) = [rnd]"
    and "\<forall>ev \<in> set during. \<not> is_setKey ev \<and> \<not> ends_round 0 ev"
    and "distinct (map fst (enqueued decode during (step decode start sys)))"
    and "fst ` set (enqueued decode during (step decode start sys))
           \<inter> fst ` set (batchToSend rnd) = {}"
    and "failure_of outcome = Some e" and "\<not> isCriticalError e"
    and "sys' = run decode (during @ [Round_settles 0 outcome]) (step decode start sys)"
  shows "pending (the_client sys')
           = enqueued decode during (step decode start sys) @ batchToSend rnd
    \<and> completed (the_client sys') = completedSnapshot rnd
    \<and> active (the_client sys') = active (the_client sys)
    \<and> length (pending (the_client sys')) + length (active (the_client sys'))
        = length (batchToSend rnd) + length (active (the_client sys))
          + length (enqueued decode during (step decode start sys))
    \<and> completedSnapshot rnd = completed (the_client sys)
    \<and> (start = Timer_fires \<longrightarrow> batchToSend rnd = pending (the_client sys))
    \<and> (\<forall>a n r t. start = Call_executeOrFallback a n r t \<longrightarrow>
           batchToSend rnd = AList.update (generateRequestKey n r)
             \<lparr>requestKey = generateRequestKey n r, call = a, cont = promises sys,
              timestamp = t\<rparr> (pending (the_client sys)))"
proof -
  define sys1 where "sys1 = step decode start sys"
  define sys2 where "sys2 = run decode during sys1"
  define new where "new = enqueued decode during sys1"
  from run_queues_ok [OF new_system_queues_ok, of decode evs0] assms(1)
  have ok: "distinct (map fst (pending (the_client sys)))" "distinct (completed (the_client sys))"
    by (simp_all add: queues_ok_def)
  note rs = round_start [OF assms(2) assms(4)]
  from rs assms(3,4) have 1: "rounds sys1 = [rnd]" "returned sys1 = 0"
    "processing (the_client sys1)"
    by (simp_all add: sys1_def)
  from rs have 2: "pending (the_client sys1) = []" "completed (the_client sys1) = []"
    "active (the_client sys1) = active (the_client sys)"
    by (simp_all add: sys1_def)
  from rs ok have 3: "distinct (map fst (batchToSend rnd))" "distinct (completedSnapshot rnd)"
    by simp_all
  from assms(6) have dn: "distinct (map fst new)" by (simp add: new_def sys1_def)
  from assms(7) have dj: "fst ` set (batchToSend rnd) \<inter> fst ` set new = {}"
    by (auto simp: new_def sys1_def)
  note d = during_run [OF 1 assms(5), of decode]
  from restore_disjoint [OF dn, of "[]"]
  have "fold (\<lambda>(k, request). AList.update k request) new [] = new" by simp
  with d 2 have 4: "rounds sys2 = [rnd]" "pending (the_client sys2) = new"
    "completed (the_client sys2) = []" "active (the_client sys2) = active (the_client sys)"
    by (simp_all add: sys2_def new_def)
  have "sys' = step decode (Round_settles 0 outcome) sys2"
    by (simp add: assms(10) run_def sys2_def sys1_def)
  with 4(1) have c: "the_client sys'
      = handleBatchError e (batchToSend rnd) (completedSnapshot rnd) (the_client sys2)"
    by (simp add: failure_of_response [OF assms(8)])
  from restore_disjoint [OF 3(1) dj]
  have p: "pending (the_client sys') = new @ batchToSend rnd"
    by (simp add: c handleBatchError_transient [OF assms(9)] 4)
  have k: "completed (the_client sys') = completedSnapshot rnd"
    by (simp add: c handleBatchError_transient [OF assms(9)] 4 fold_set_add_Nil [OF 3(2)])
  have a: "active (the_client sys') = active (the_client sys)"
    by (simp add: c handleBatchError_transient [OF assms(9)] 4)
  from p k a rs show ?thesis
    by (simp add: new_def sys1_def)
qed

text \<open>
  The second call of the example finds the first request active and starts a round of
  its own. While that round is in flight a third request is submitted and the timer of
  the first round fires; then the post times out. Both new requests are pending
  afterwards and the first is still active.
\<close>

theorem failed_round_conserves_witness:
  "map fst (pending (the_client (run demo_decode
       [Call_executeOrFallback demo_call ''2'' ''r'' 6,
        Call_executeOrFallback demo_call ''3'' ''r'' 7, Timer_fires,
        Round_settles 0 (Inl timeout_error)] demo_polling)))
     = [''req_3_r'', ''req_2_r'']
   \<and> map fst (active (the_client (run demo_decode
       [Call_executeOrFallback demo_call ''2'' ''r'' 6,
        Call_executeOrFallback demo_call ''3'' ''r'' 7, Timer_fires,
        Round_settles 0 (Inl timeout_error)] demo_polling)))
     = [''req_1_r'']
   \<and> length (pending (the_client (run demo_decode
       [Call_executeOrFallback demo_call ''2'' ''r'' 6,
        Call_executeOrFallback demo_call ''3'' ''r'' 7, Timer_fires,
        Round_settles 0 (Inl timeout_error)] demo_polling)))
     + length (active (the_client (run demo_decode
       [Call_executeOrFallback demo_call ''2'' ''r'' 6,
        Call_executeOrFallback demo_call ''3'' ''r'' 7, Timer_fires,
        Round_settles 0 (Inl timeout_error)] demo_polling))) = 3
   \<and> map (map fst \<circ> batchToSend)
       (rounds (step demo_decode (Call_executeOrFallback demo_call ''2'' ''r'' 6) demo_polling))
     = [[''req_2_r'']]
   \<and> map fst (active (the_client demo_polling)) = [''req_1_r'']"
proof -
  define start where "start = Call_executeOrFallback demo_call ''2'' ''r'' 6"
  define during where "during = [Call_executeOrFallback demo_call ''3'' ''r'' 7, Timer_fires]"
  define rnd where "rnd = \<lparr>batchToSend = [(''req_2_r'',
       \<lparr>requestKey = ''req_2_r'', call = demo_call, cont = 1, timestamp = 6\<rparr>)],
     completedSnapshot = []\<rparr>"
  have s: "rounds demo_polling = []" "returned demo_polling = 0"
    "map fst (active (the_client demo_polling)) = [''req_1_r'']"
    by (simp_all add: demo_polling_def demo_created_body_def run_def new_system_def eval_defs
        run_defs)
  have r: "rounds (step demo_decode start demo_polling) = [rnd]"
    by (simp add: start_def rnd_def demo_polling_def demo_created_body_def run_def
        new_system_def eval_defs run_defs)
  have e: "enqueued demo_decode during (step demo_decode start demo_polling)
      = [(''req_3_r'', \<lparr>requestKey = ''req_3_r'', call = demo_call, cont = 2, timestamp = 7\<rparr>)]"
    by (simp add: start_def during_def demo_polling_def demo_created_body_def run_def
        new_system_def eval_defs run_defs)
  have d: "\<forall>ev \<in> set during. \<not> is_setKey ev \<and> \<not> ends_round 0 ev"
    by (simp add: during_def)
  have f: "failure_of (Inl timeout_error) = Some timeout_error"
    "\<not> isCriticalError timeout_error"
    by (simp_all add: failure_of_def isCriticalError_def timeout_error_def Error_def)
  have e1: "distinct (map fst (enqueued demo_decode during (step demo_decode start demo_polling)))"
    and e2: "fst ` set (enqueued demo_decode during (step demo_decode start demo_polling))
           \<inter> fst ` set (batchToSend rnd) = {}"
    by (simp_all add: e rnd_def)
  have t: "run demo_decode (during @ [Round_settles 0 (Inl timeout_error)])
             (step demo_decode start demo_polling)
           = run demo_decode [Call_executeOrFallback demo_call ''2'' ''r'' 6,
        Call_executeOrFallback demo_call ''3'' ''r'' 7, Timer_fires,
        Round_settles 0 (Inl timeout_error)] demo_polling"
    by (simp add: run_def start_def during_def)
  define c' where "c' = the_client (run demo_decode
       [Call_executeOrFallback demo_call ''2'' ''r'' 6,
        Call_executeOrFallback demo_call ''3'' ''r'' 7, Timer_fires,
        Round_settles 0 (Inl timeout_error)] demo_polling)"
  have th: "pending c' = [(''req_3_r'',
        \<lparr>requestKey = ''req_3_r'', call = demo_call, cont = 2, timestamp = 7\<rparr>)]
        @ batchToSend rnd
      \<and> active c' = active (the_client demo_polling)"
    using failed_round_conserves [OF demo_polling_def s(1) s(2) r d e1 e2 f refl]
    unfolding t e c'_def by blast
  have 1: "map fst (pending c') = [''req_3_r'', ''req_2_r'']"
    using th by (simp add: rnd_def)
  have 2: "map fst (active c') = [''req_1_r'']"
    using th s(3) by simp
  have 3: "length (pending c') + length (active c') = 3"
    using arg_cong [OF 1, of length] arg_cong [OF 2, of length] by simp
  have "map (map fst \<circ> batchToSend) [rnd] = [[''req_2_r'']]"
    by (simp add: rnd_def)
  then have 4: "map (map fst \<circ> batchToSend)
       (rounds (step demo_decode (Call_executeOrFallback demo_call ''2'' ''r'' 6) demo_polling))
     = [[''req_2_r'']]"
    unfolding r [unfolded start_def] .
  from 1 2 3 4 s(3) show ?thesis
    unfolding c'_def by blast
qed

text \<open>
  The claim as stated fails in four ways. Each time the round starts with one request
  pending or active, and no request or one request is enqueued while it is in flight.
  When the round of the pending request ends with a 500, the reset rejects the restored
  request and empties the queues: the sum drops from 1 to 0. When \<open>setKey\<close> is called
  during the round that polls the active request and the post then times out, the sum
  drops from 1 to 0 as well. When a request is enqueued during the round under the key of
  the snapshot's request and the post times out, the rollback overwrites it: the sum is 1
  and not 2. When a second round starts while the first is in flight and both time out,
  the second ends with the sum 2 although it started with 1 and nothing was enqueued
  during it.
\<close>

theorem failed_round_counterexample:
  "length (pending (the_client demo_idle)) + length (active (the_client demo_idle)) = 1
   \<and> length (rounds (step demo_decode Timer_fires demo_idle)) = 1
   \<and> length (pending (the_client (run demo_decode
         [Timer_fires, Round_settles 0 (Inl (http_error 500 None))] demo_idle)))
     + length (active (the_client (run demo_decode
         [Timer_fires, Round_settles 0 (Inl (http_error 500 None))] demo_idle))) = 0
   \<and> length (pending (the_client demo_polling)) + length (active (the_client demo_polling)) = 1
   \<and> length (rounds (step demo_decode Timer_fires demo_polling)) = 1
   \<and> enqueued demo_decode [Call_setKey (Some (utf16 ''xyz''))]
        (step demo_decode Timer_fires demo_polling) = []
   \<and> length (pending (the_client (run demo_decode
         [Timer_fires, Call_setKey (Some (utf16 ''xyz'')),
          Round_settles 0 (Inl timeout_error)] demo_polling)))
     + length (active (the_client (run demo_decode
         [Timer_fires, Call_setKey (Some (utf16 ''xyz'')),
          Round_settles 0 (Inl timeout_error)] demo_polling))) = 0
   \<and> length (enqueued demo_decode [Call_executeOrFallback demo_call ''1'' ''r'' 9]
        (step demo_decode Timer_fires demo_idle)) = 1
   \<and> length (pending (the_client (run demo_decode
         [Timer_fires, Call_executeOrFallback demo_call ''1'' ''r'' 9,
          Round_settles 0 (Inl timeout_error)] demo_idle)))
     + length (active (the_client (run demo_decode
         [Timer_fires, Call_executeOrFallback demo_call ''1'' ''r'' 9,
          Round_settles 0 (Inl timeout_error)] demo_idle))) = 1
   \<and> map (map fst \<circ> batchToSend) (rounds (run demo_decode overlap_trace new_system))
       = [[''req_1_r''], [''req_2_r'']]
   \<and> active (the_client (run demo_decode overlap_trace new_system)) = []
   \<and> length (pending (the_client (run demo_decode
         (overlap_trace @ [Round_settles 0 (Inl timeout_error),
                           Round_settles 0 (Inl timeout_error)]) new_system)))
     + length (active (the_client (run demo_decode
         (overlap_trace @ [Round_settles 0 (Inl timeout_error),
                           Round_settles 0 (Inl timeout_error)]) new_system))) = 2"
  by (simp add: demo_idle_def demo_polling_def demo_created_body_def demo_failed_round_def
      overlap_trace_def run_def new_system_def eval_defs run_defs)

subsection \<open>Only a held request can be settled\<close>

lemma set_update_subset: "set (AList.update k v m) \<subseteq> insert (k, v) (set m)"
  by (induction m) auto

lemma conts_of_iff: "c \<in> conts_of m \<longleftrightarrow> (\<exists>k r. (k, r) \<in> set m \<and> cont r = c)"
  by (force simp: conts_of_def)

lemma conts_of_update: "conts_of (AList.update k v m) \<subseteq> insert (cont v) (conts_of m)"
  using set_update_subset [of k v m] by (fastforce simp: conts_of_iff)

lemma conts_of_delete: "conts_of (AList.delete k m) \<subseteq> conts_of m"
  by (fastforce simp: conts_of_iff AList.delete_eq)

lemma conts_of_lookup: "map_of m k = Some v \<Longrightarrow> cont v \<in> conts_of m"
  by (auto simp: conts_of_iff dest: map_of_SomeD)

lemma conts_of_Nil [simp]: "conts_of [] = {}"
  by (simp add: conts_of_def)

lemma conts_of_Cons: "conts_of ((k, v) # m) = insert (cont v) (conts_of m)"
  by (simp add: conts_of_def)

lemma conts_of_restore:
  "conts_of (fold (\<lambda>(k, request). AList.update k request) batch m) \<subseteq> conts_of batch \<union> conts_of m"
proof (induction batch arbitrary: m)
  case Nil
  then show ?case by simp
next
  case (Cons p batch)
  obtain k v where p: "p = (k, v)" by (cases p)
  have "conts_of (fold (\<lambda>(k, request). AList.update k request) batch (AList.update k v m))
          \<subseteq> conts_of batch \<union> conts_of (AList.update k v m)"
    by (rule Cons.IH)
  also have "\<dots> \<subseteq> conts_of batch \<union> insert (cont v) (conts_of m)"
    using conts_of_update [of k v m] by blast
  finally show ?case by (simp add: p conts_of_Cons)
qed

lemma settlements_simps [simp]:
  "settlements c (emit es s) = settlements c s @ filter (settles c) es"
  "settlements c (s\<lparr>pending := p\<rparr>) = settlements c s"
  "settlements c (s\<lparr>active := a\<rparr>) = settlements c s"
  "settlements c (s\<lparr>completed := d\<rparr>) = settlements c s"
  "settlements c (s\<lparr>processing := b\<rparr>) = settlements c s"
  "settlements c (s\<lparr>pollRate := x\<rparr>) = settlements c s"
  "settlements c (s\<lparr>broken := b\<rparr>) = settlements c s"
  "settlements c (s\<lparr>key := k\<rparr>) = settlements c s"
  "settlements c (s\<lparr>error := e\<rparr>) = settlements c s"
  by (simp_all add: settlements_def)

lemma filter_settles_rejections:
  "c \<notin> conts_of m
   \<Longrightarrow> filter (settles c) (map ((\<lambda>req. Rejected (cont req) msg) \<circ> snd) m) = []"
  by (induction m) (auto simp: conts_of_def)

lemma resetState_settlements:
  "c \<notin> conts_of (pending s) \<Longrightarrow> c \<notin> conts_of (active s)
   \<Longrightarrow> settlements c (resetState s) = settlements c s"
  by (simp add: settlements_def resetState_effects filter_settles_rejections)

lemma handle_result_held:
  "conts_of (active (handle_result decode r s)) \<subseteq> conts_of (active s)"
  "c \<notin> conts_of (active s) \<Longrightarrow> settlements c (handle_result decode r s) = settlements c s"
  using conts_of_delete [of "res_requestKey r" "active s"]
  by (auto simp: handle_result_def resolve_def reject_def Let_def dest: conts_of_lookup
      split: option.splits)

lemma fold_handle_result_held:
  "conts_of (active (fold (handle_result decode) rs s)) \<subseteq> conts_of (active s)
   \<and> (c \<notin> conts_of (active s)
        \<longrightarrow> settlements c (fold (handle_result decode) rs s) = settlements c s)"
proof (induction rs arbitrary: s)
  case Nil
  then show ?case by simp
next
  case (Cons r rs)
  from Cons.IH [of "handle_result decode r s"] handle_result_held(1) [of decode r s]
    handle_result_held(2) [where c = c and s = s and decode = decode and r = r]
  show ?case by auto
qed

lemma handle_created_held:
  "conts_of (active (handle_created batch item s)) \<subseteq> conts_of batch \<union> conts_of (active s)"
  "c \<notin> conts_of batch \<Longrightarrow> settlements c (handle_created batch item s) = settlements c s"
proof -
  show "conts_of (active (handle_created batch item s)) \<subseteq> conts_of batch \<union> conts_of (active s)"
  proof (cases "map_of batch (item_requestKey item)")
    case None
    then show ?thesis by (simp add: handle_created_def)
  next
    case (Some request)
    from conts_of_lookup [OF this] conts_of_update [of "item_requestKey item" request "active s"]
      Some
    show ?thesis by (auto simp: handle_created_def reject_def)
  qed
  show "settlements c (handle_created batch item s) = settlements c s" if "c \<notin> conts_of batch"
    using that
    by (auto simp: handle_created_def reject_def dest: conts_of_lookup split: option.splits)
qed

lemma fold_handle_created_held:
  "conts_of (active (fold (handle_created batch) cs s)) \<subseteq> conts_of batch \<union> conts_of (active s)
   \<and> (c \<notin> conts_of batch
        \<longrightarrow> settlements c (fold (handle_created batch) cs s) = settlements c s)"
proof (induction cs arbitrary: s)
  case Nil
  then show ?case by simp
next
  case (Cons item cs)
  from Cons.IH [of "handle_created batch item s"] handle_created_held(1) [of batch item s]
    handle_created_held(2) [where c = c and s = s and batch = batch and item = item]
  show ?case by auto
qed

lemma handleBatchResponse_held:
  "conts_of (active (handleBatchResponse decode d batch s)) \<subseteq> conts_of batch \<union> conts_of (active s)"
  "c \<notin> conts_of batch \<Longrightarrow> c \<notin> conts_of (active s)
   \<Longrightarrow> settlements c (handleBatchResponse decode d batch s) = settlements c s"
proof -
  define s1 where "s1 = (case intervalMs d of Some x \<Rightarrow> s\<lparr>pollRate := clamp_rate x\<rparr> | None \<Rightarrow> s)"
  define s2 where "s2 = (case results d of
                  Some rs \<Rightarrow> if length rs > 0 then fold (handle_result decode) rs s1 else s1
                | None \<Rightarrow> s1)"
  define s3 where "s3 = (case created d of
                  Some cs \<Rightarrow> if length cs > 0 then fold (handle_created batch) cs s2 else s2
                | None \<Rightarrow> s2)"
  have r: "handleBatchResponse decode d batch s = notifyStateChange s3"
    by (simp only: handleBatchResponse_def s1_def s2_def s3_def Let_def)
  have 1: "active s1 = active s" "settlements c s1 = settlements c s"
    by (simp_all add: s1_def split: option.splits)
  have 2: "conts_of (active s2) \<subseteq> conts_of (active s)"
    "c \<notin> conts_of (active s) \<Longrightarrow> settlements c s2 = settlements c s"
    using fold_handle_result_held [of decode _ s1 c] 1
    by (auto simp: s2_def split: option.splits)
  have 3: "conts_of (active s3) \<subseteq> conts_of batch \<union> conts_of (active s2)"
    "c \<notin> conts_of batch \<Longrightarrow> settlements c s3 = settlements c s2"
    using fold_handle_created_held [of batch _ s2 c]
    by (auto simp: s3_def split: option.splits)
  from 2(1) 3(1)
  show "conts_of (active (handleBatchResponse decode d batch s))
          \<subseteq> conts_of batch \<union> conts_of (active s)"
    by (auto simp: r)
  show "settlements c (handleBatchResponse decode d batch s) = settlements c s"
    if "c \<notin> conts_of batch" "c \<notin> conts_of (active s)"
    using that 2(2) 3(2) by (simp add: r)
qed

lemma handleBatchError_held:
  "conts_of (pending (handleBatchError e batch snapshot s)) \<subseteq> conts_of batch \<union> conts_of (pending s)"
  "conts_of (active (handleBatchError e batch snapshot s)) \<subseteq> conts_of (active s)"
  "c \<notin> conts_of batch \<Longrightarrow> c \<notin> conts_of (pending s) \<Longrightarrow> c \<notin> conts_of (active s)
   \<Longrightarrow> settlements c (handleBatchError e batch snapshot s) = settlements c s"
proof -
  note r = conts_of_restore [of batch "pending s"]
  show "conts_of (pending (handleBatchError e batch snapshot s))
          \<subseteq> conts_of batch \<union> conts_of (pending s)"
    using r
    by (cases "isCriticalError e")
      (simp_all add: handleBatchError_critical handleBatchError_transient)
  show "conts_of (active (handleBatchError e batch snapshot s)) \<subseteq> conts_of (active s)"
    by (cases "isCriticalError e")
      (simp_all add: handleBatchError_critical handleBatchError_transient)
  show "settlements c (handleBatchError e batch snapshot s) = settlements c s"
    if "c \<notin> conts_of batch" "c \<notin> conts_of (pending s)" "c \<notin> conts_of (active s)"
  proof -
    from that r
    have "c \<notin> conts_of (fold (\<lambda>(k, request). AList.update k request) batch (pending s))"
      by blast
    with that show ?thesis
      by (cases "isCriticalError e")
        (simp_all add: settlements_def handleBatchError_critical handleBatchError_transient
          filter_settles_rejections)
  qed
qed

lemma processBatch_response_held:
  "conts_of (pending (processBatch_response decode outcome rnd s))
     \<subseteq> conts_of (batchToSend rnd) \<union> conts_of (pending s)"
  "conts_of (active (processBatch_response decode outcome rnd s))
     \<subseteq> conts_of (batchToSend rnd) \<union> conts_of (active s)"
  "c \<notin> conts_of (batchToSend rnd) \<Longrightarrow> c \<notin> conts_of (pending s) \<Longrightarrow> c \<notin> conts_of (active s)
   \<Longrightarrow> settlements c (processBatch_response decode outcome rnd s) = settlements c s"
  using handleBatchError_held(1) [of _ "batchToSend rnd" "completedSnapshot rnd" s]
    handleBatchError_held(2) [of _ "batchToSend rnd" "completedSnapshot rnd" s]
    handleBatchResponse_held(1) [of decode _ "batchToSend rnd" s]
  by (auto simp: processBatch_response_def Let_def handleBatchError_held(3)
      handleBatchResponse_held(2) split: sum.splits option.splits)

lemma processIfNeeded_call_held:
  "conts_of (pending (fst (processIfNeeded_call s))) \<subseteq> conts_of (pending s)"
  "active (fst (processIfNeeded_call s)) = active s"
  "snd (processIfNeeded_call s) = InFlight rnd \<Longrightarrow> batchToSend rnd = pending s"
  "settlements c (fst (processIfNeeded_call s)) = settlements c s"
  by (auto simp: processIfNeeded_call_def processBatch_request_def Let_def
      notifyStateChange_def split: if_splits)

lemma executeOrFallback_held:
  "conts_of (pending (fst (executeOrFallback apiCall rk c' now s)))
     \<subseteq> insert c' (conts_of (pending s))"
  "active (fst (executeOrFallback apiCall rk c' now s)) = active s"
  "snd (executeOrFallback apiCall rk c' now s) = InFlight rnd
   \<Longrightarrow> conts_of (batchToSend rnd) \<subseteq> insert c' (conts_of (pending s))"
  "settlements c (fst (executeOrFallback apiCall rk c' now s)) = settlements c s"
proof -
  let ?req = "\<lparr>requestKey = rk, call = apiCall, cont = c', timestamp = now\<rparr>"
  let ?s = "notifyStateChange (s\<lparr>pending := AList.update rk ?req (pending s)\<rparr>)"
  have e: "\<not> (broken s \<or> \<not> truthy (key s))
    \<Longrightarrow> executeOrFallback apiCall rk c' now s = processIfNeeded_call ?s"
    by (simp add: executeOrFallback_def Let_def)
  have p: "conts_of (pending ?s) \<subseteq> insert c' (conts_of (pending s))"
    using conts_of_update [of rk ?req "pending s"] by simp
  show "conts_of (pending (fst (executeOrFallback apiCall rk c' now s)))
     \<subseteq> insert c' (conts_of (pending s))"
    using e p processIfNeeded_call_held(1) [of ?s]
    by (cases "broken s \<or> \<not> truthy (key s)") (auto simp: executeOrFallback_def)
  show "active (fst (executeOrFallback apiCall rk c' now s)) = active s"
    using e processIfNeeded_call_held(2) [of ?s]
    by (cases "broken s \<or> \<not> truthy (key s)") (auto simp: executeOrFallback_def)
  show "conts_of (batchToSend rnd) \<subseteq> insert c' (conts_of (pending s))"
    if "snd (executeOrFallback apiCall rk c' now s) = InFlight rnd"
    using that e p processIfNeeded_call_held(3) [of ?s rnd]
    by (cases "broken s \<or> \<not> truthy (key s)") (auto simp: executeOrFallback_def)
  show "settlements c (fst (executeOrFallback apiCall rk c' now s)) = settlements c s"
    using e processIfNeeded_call_held(4) [of c ?s]
    by (cases "broken s \<or> \<not> truthy (key s)")
      (auto simp: executeOrFallback_def settlements_def)
qed

lemma setKey_call_settlements:
  "c \<notin> conts_of (pending s) \<Longrightarrow> c \<notin> conts_of (active s)
   \<Longrightarrow> settlements c (fst (setKey_call k s)) = settlements c s"
  by (cases "normalize_key k")
    (simp_all add: settlements_def setKey_call_effects filter_settles_rejections)

lemma setKey_resume_settlements [simp]:
  "settlements c (snd (setKey_resume outcome s)) = settlements c s"
  using initializeConnection_response_effects [of outcome s]
  by (cases "initializeConnection_response outcome s")
    (auto simp: setKey_resume_def settlements_def split: option.splits)

lemma held_add_started:
  "held (add_started st sys)
     = held sys \<union> (case st of InFlight rnd \<Rightarrow> conts_of (batchToSend rnd) | _ \<Rightarrow> {})"
  by (cases st) (auto simp: add_started_def held_def)

lemma promises_add_started [simp]: "promises (add_started st sys) = promises sys"
  by (cases st) (simp_all add: add_started_def)

lemma held_without_round:
  "i < length rs
   \<Longrightarrow> (\<Union>rnd \<in> set (take i rs @ drop (Suc i) rs). conts_of (batchToSend rnd))
         \<subseteq> (\<Union>rnd \<in> set rs. conts_of (batchToSend rnd))"
  by (auto dest: in_set_takeD in_set_dropD)

lemma step_held:
  assumes "c \<notin> held sys" and "c < promises sys"
  shows "c \<notin> held (step decode ev sys) \<and> c < promises (step decode ev sys)
       \<and> settlements c (the_client (step decode ev sys)) = settlements c (the_client sys)"
proof (cases ev)
  case (Call_executeOrFallback apiCall now rnd t)
  let ?r = "executeOrFallback apiCall (generateRequestKey now rnd) (promises sys) t
              (the_client sys)"
  obtain s st where r: "?r = (s, st)" by (cases ?r)
  from executeOrFallback_held(1,2,4) [where apiCall = apiCall
      and rk = "generateRequestKey now rnd" and c' = "promises sys" and now = t
      and s = "the_client sys"] r
  have 1: "conts_of (pending s) \<subseteq> insert (promises sys) (conts_of (pending (the_client sys)))"
    "active s = active (the_client sys)"
    "settlements c s = settlements c (the_client sys)" for c
    by simp_all
  have 2: "conts_of (batchToSend rnd')
             \<subseteq> insert (promises sys) (conts_of (pending (the_client sys)))"
    if "st = InFlight rnd'" for rnd'
    using executeOrFallback_held(3) [of apiCall "generateRequestKey now rnd" "promises sys" t
        "the_client sys" rnd'] r that by simp
  from assms 1 2 show ?thesis
    by (simp add: Call_executeOrFallback r held_add_started)
      (auto simp: held_def split: started.splits)
next
  case (Call_setKey k)
  obtain s aw where r: "setKey_call k (the_client sys) = (s, aw)"
    by (cases "setKey_call k (the_client sys)")
  from setKey_call_fields(4,5) [of k "the_client sys"]
    setKey_call_settlements [of c "the_client sys" k] r assms
  show ?thesis by (auto simp: Call_setKey held_def)
next
  case (Init_settles outcome)
  with assms show ?thesis by (auto simp: held_def)
next
  case (Round_settles i outcome)
  show ?thesis
  proof (cases "i < length (rounds sys)")
    case False
    with assms Round_settles show ?thesis by simp
  next
    case True
    let ?rnd = "rounds sys ! i"
    let ?s = "processBatch_response decode outcome ?rnd (the_client sys)"
    from True have "?rnd \<in> set (rounds sys)" by simp
    with assms(1) have n: "c \<notin> conts_of (batchToSend ?rnd)"
      "c \<notin> conts_of (pending (the_client sys))" "c \<notin> conts_of (active (the_client sys))"
      by (auto simp: held_def)
    from processBatch_response_held(1,2) [of decode outcome ?rnd "the_client sys"] n
    have p: "c \<notin> conts_of (pending ?s)" "c \<notin> conts_of (active ?s)" by auto
    from assms(1) held_without_round [OF True]
    have q: "c \<notin> (\<Union>rnd \<in> set (take i (rounds sys) @ drop (Suc i) (rounds sys)).
                     conts_of (batchToSend rnd))"
      by (auto simp: held_def)
    from processBatch_response_held(3) [OF n, of decode outcome] p q assms(2) True
    show ?thesis by (simp add: Round_settles held_def)
  qed
next
  case Finally_runs
  with assms show ?thesis
    by (auto simp: held_def processIfNeeded_finally_def settlements_def)
next
  case Timer_fires
  obtain s st where r: "processIfNeeded_call (the_client sys) = (s, st)"
    by (cases "processIfNeeded_call (the_client sys)")
  from processIfNeeded_call_held(1,2,4) [where s = "the_client sys"] r
  have 1: "conts_of (pending s) \<subseteq> conts_of (pending (the_client sys))"
    "active s = active (the_client sys)"
    "settlements c s = settlements c (the_client sys)" for c
    by simp_all
  have 2: "batchToSend rnd' = pending (the_client sys)" if "st = InFlight rnd'" for rnd'
    using processIfNeeded_call_held(3) [of "the_client sys" rnd'] r that by simp
  from assms 1 2 show ?thesis
    by (simp add: Timer_fires r held_add_started)
      (auto simp: held_def split: started.splits)
qed

lemma run_held:
  assumes "c \<notin> held sys" and "c < promises sys"
  shows "c \<notin> held (run decode evs sys) \<and> c < promises (run decode evs sys)
       \<and> settlements c (the_client (run decode evs sys)) = settlements c (the_client sys)"
  using assms
proof (induction evs arbitrary: sys)
  case Nil
  then show ?case by (simp add: run_def)
next
  case (Cons ev evs)
  from step_held [OF Cons.prems, of decode ev]
  have 1: "c \<notin> held (step decode ev sys)" "c < promises (step decode ev sys)"
    and 2: "settlements c (the_client (step decode ev sys)) = settlements c (the_client sys)"
    by simp_all
  from Cons.IH [OF 1] 2 show ?case by (simp add: run_def)
qed

lemma run_append: "run decode (evs @ evs') sys = run decode evs' (run decode evs sys)"
  by (simp add: run_def)

subsection \<open>Where the code departs from the specification\<close>

text \<open>
  C1 does not hold of the code. The request of promise 0 is submitted while connected
  and sent in a batch; the round succeeds, but the response acknowledges nothing. The
  request was taken out of \<open>pending\<close> when the round started and \<open>handleBatchResponse\<close>
  only looks at the entries of \<open>created\<close>, so the request is in no queue afterwards, and
  whatever happens later neither its \<open>resolve\<close> nor its \<open>reject\<close> is ever called.
\<close>

theorem unacknowledged_request_is_never_settled:
  "posts_of (effects (the_client (run demo_decode lost_trace new_system)))
     = [InitPayload (utf16 ''abc''),
        BatchPayload (utf16 ''abc'') [] [] [(''req_1_r'', ''b24Call'', [JStr ''user.current''])]]
   \<and> pending (the_client (run demo_decode lost_trace new_system)) = []
   \<and> active (the_client (run demo_decode lost_trace new_system)) = []
   \<and> rounds (run demo_decode lost_trace new_system) = []
   \<and> settlements 0 (the_client (run demo_decode (lost_trace @ evs) new_system)) = []"
proof -
  have 1: "posts_of (effects (the_client (run demo_decode lost_trace new_system)))
     = [InitPayload (utf16 ''abc''),
        BatchPayload (utf16 ''abc'') [] [] [(''req_1_r'', ''b24Call'', [JStr ''user.current''])]]"
    and 2: "pending (the_client (run demo_decode lost_trace new_system)) = []"
    and 3: "active (the_client (run demo_decode lost_trace new_system)) = []"
    and 4: "rounds (run demo_decode lost_trace new_system) = []"
    and 5: "promises (run demo_decode lost_trace new_system) = 1"
    and 6: "settlements 0 (the_client (run demo_decode lost_trace new_system)) = []"
    by (simp_all add: lost_trace_def run_def new_system_def settlements_def eval_defs run_defs)
  from 2 3 4 have "0 \<notin> held (run demo_decode lost_trace new_system)"
    by (simp add: held_def)
  from run_held [OF this, of demo_decode evs] 5 6
  have "settlements 0 (the_client (run demo_decode (lost_trace @ evs) new_system)) = []"
    by (simp add: run_append)
  with 1 2 3 4 show ?thesis by simp
qed

text \<open>
  C8 does not hold of the code. \<open>setKey\<close> rejects the requests of the pending and of the
  active map, but a request that a round in flight took out of \<open>pending\<close> is only in the
  \<open>batchToSend\<close> of that round, where \<open>resetState\<close> does not look. Here the key is changed
  from \<open>abc\<close> to \<open>xyz\<close> while the round that carries the request of promise 0 is in
  flight. The request is not rejected; when the round succeeds it is made active, and the
  next round asks for its status under the new key. A response of that round then
  resolves the promise.
\<close>

theorem request_in_flight_survives_setKey:
  "settlements 0 (the_client (run demo_decode carried_trace new_system)) = []
   \<and> key (the_client (run demo_decode carried_trace new_system)) = Some (utf16 ''xyz'')
   \<and> map fst (active (the_client (run demo_decode carried_trace new_system))) = [''req_1_r'']
   \<and> posts_of (effects (the_client (run demo_decode carried_trace new_system)))
     = [InitPayload (utf16 ''abc''),
        BatchPayload (utf16 ''abc'') [] [] [(''req_1_r'', ''b24Call'', [JStr ''user.current''])],
        InitPayload (utf16 ''xyz''),
        BatchPayload (utf16 ''xyz'') [] [''req_1_r''] []]
   \<and> settlements 0 (the_client (run demo_decode
         (carried_trace @ [Round_settles 0 (Inr (DirectData (data_with None
            (Some [\<lparr>res_requestKey = ''req_1_r'', res_status = Done,
                    res_result = Some (JNum 1), res_isError = None\<rparr>]) None)))])
         new_system))
     = [Resolved 0 (Some (JNum 1))]"
  by (simp add: carried_trace_def demo_created_body_def run_def new_system_def settlements_def
      parseResult_def eval_defs run_defs)

text \<open>
  C6 does not hold of the code. \<open>resetState\<close>, called by \<open>setKey\<close>, sets \<open>processing\<close> to
  false while the post of a round is still awaited; the next \<open>processIfNeeded\<close> then
  starts a second round, and two calls of \<open>processBatch\<close> are suspended at the same
  time.
\<close>

theorem rounds_overlap_after_setKey:
  "map (map fst \<circ> batchToSend) (rounds (run demo_decode overlap_trace new_system))
     = [[''req_1_r''], [''req_2_r'']]
   \<and> length (rounds (run demo_decode overlap_trace new_system)) = 2"
  by (simp add: overlap_trace_def run_def new_system_def eval_defs run_defs)

end
